theory Spec2Isabelle
  imports Complex_Main
begin

section \<open>Numbers and arrays\<close>

text \<open>
  The source (\<^verbatim>\<open>mdp/nodes/lcov.py\<close>) computes on arrays of the numeric module
  \<^verbatim>\<open>numx\<close>, whose arrays are taken to behave as NumPy arrays do. A finite entry is
  modelled as a rational (every finite floating-point number is one), so that the theorems
  below speak of the arithmetic the code writes down, not of rounding; the entries of an
  integer-typed array are integers without bound. One further value, \<open>NonFinite\<close>, stands
  for every entry that is an infinity or a NaN, as a floating-point division by zero leaves
  it: a sum, difference or product with such an operand is such a value again.
\<close>

datatype number = Fin rat | NonFinite

instantiation number :: comm_monoid_add
begin

definition zero_number :: number where
  "zero_number = Fin 0"

definition plus_number :: "number \<Rightarrow> number \<Rightarrow> number" where
  "plus_number x y = (case (x, y) of (Fin a, Fin b) \<Rightarrow> Fin (a + b) | _ \<Rightarrow> NonFinite)"

instance
proof
  fix a b c :: number
  show "a + b + c = a + (b + c)"
    by (cases a; cases b; cases c) (simp_all add: plus_number_def)
  show "a + b = b + a"
    by (cases a; cases b) (simp_all add: plus_number_def)
  show "0 + a = a"
    by (cases a) (simp_all add: plus_number_def zero_number_def)
qed

end

instantiation number :: "{one, minus, times}"
begin

definition one_number :: number where
  "one_number = Fin 1"

definition minus_number :: "number \<Rightarrow> number \<Rightarrow> number" where
  "minus_number x y = (case (x, y) of (Fin a, Fin b) \<Rightarrow> Fin (a - b) | _ \<Rightarrow> NonFinite)"

definition times_number :: "number \<Rightarrow> number \<Rightarrow> number" where
  "times_number x y = (case (x, y) of (Fin a, Fin b) \<Rightarrow> Fin (a * b) | _ \<Rightarrow> NonFinite)"

instance ..

end

instance number :: numeral ..

text \<open>
  A 1-D array is a list; a 2-D array keeps its second dimension beside its rows, since an
  array with no rows still has a row width (\<^verbatim>\<open>x.shape[1]\<close>). The arrays that a caller
  passes in have finite entries; the arrays of an accumulator and of its results have
  entries of type \<^typ>\<open>number\<close>.
\<close>

type_synonym vector = "number list"

record 'a matrix =
  ncols :: nat
  rows :: "'a list list"

text \<open>An input batch \<^verbatim>\<open>x\<close>: an array together with what \<^verbatim>\<open>x.typecode()\<close> answers.\<close>

record batch =
  x_typecode :: string
  x_array :: "rat matrix"

datatype error =
    MDPWarning rat string  \<comment> \<open>the count and the typecode of the message\<close>
  | MDPException int int   \<comment> \<open>block length, and the least length wanted\<close>
  | ShapeError             \<comment> \<open>operands of an array operation do not fit\<close>
  | TypeError              \<comment> \<open>an array operation on \<^verbatim>\<open>None\<close>\<close>

definition nrows :: "'a matrix \<Rightarrow> nat" where
  "nrows m = length (rows m)"

definition wf_matrix :: "'a matrix \<Rightarrow> bool" where
  "wf_matrix m = list_all (\<lambda>r. length r = ncols m) (rows m)"

definition zeros1 :: "nat \<Rightarrow> vector" where
  "zeros1 d = replicate d 0"

definition zeros2 :: "nat \<Rightarrow> number matrix" where
  "zeros2 d = \<lparr>ncols = d, rows = replicate d (replicate d 0)\<rparr>"

definition column :: "'a matrix \<Rightarrow> nat \<Rightarrow> 'a list" where
  "column m j = map (\<lambda>r. r ! j) (rows m)"

text \<open>\<^verbatim>\<open>numx.transpose\<close>, \<^verbatim>\<open>numx.sum(x, 0)\<close> and \<^verbatim>\<open>numx.outerproduct\<close>.\<close>

definition tr :: "'a matrix \<Rightarrow> 'a matrix" where
  "tr m = \<lparr>ncols = nrows m, rows = map (column m) [0..<ncols m]\<rparr>"

definition sum0 :: "number matrix \<Rightarrow> vector" where
  "sum0 m = map (\<lambda>j. sum_list (column m j)) [0..<ncols m]"

definition outerproduct :: "vector \<Rightarrow> vector \<Rightarrow> number matrix" where
  "outerproduct u v = \<lparr>ncols = length v, rows = map (\<lambda>a. map (\<lambda>b. a * b) v) u\<rparr>"

definition dot :: "number list \<Rightarrow> number list \<Rightarrow> number" where
  "dot u v = sum_list (map2 (*) u v)"

text \<open>
  Modelled from the spec: \<^verbatim>\<open>utils.mult\<close> (module \<^verbatim>\<open>mdp.utils\<close> is not among the
  sources) is the matrix product, written \<open>transpose(batch) \<cdot> batch\<close> and
  \<open>A \<cdot> covariance \<cdot> transpose(A)\<close> in the specification. The product of operands whose
  inner dimensions differ does not exist: \<open>None\<close>.
\<close>

definition mult :: "number matrix \<Rightarrow> number matrix \<Rightarrow> number matrix option" where
  "mult a b =
     (if ncols a = nrows b
      then Some \<lparr>ncols = ncols b,
                 rows = map (\<lambda>r. map (\<lambda>j. dot r (column b j)) [0..<ncols b]) (rows a)\<rparr>
      else None)"

text \<open>An array that a caller passes in, as an operand of array arithmetic.\<close>

definition asarray :: "rat matrix \<Rightarrow> number matrix" where
  "asarray m = \<lparr>ncols = ncols m, rows = map (map Fin) (rows m)\<rparr>"

text \<open>Python's \<^verbatim>\<open>int(t)\<close> truncates towards zero; \<^verbatim>\<open>not t\<close> holds of \<^verbatim>\<open>None\<close> and \<^verbatim>\<open>''\<close>.\<close>

definition py_int :: "rat \<Rightarrow> int" where
  "py_int t = (if 0 \<le> t then \<lfloor>t\<rfloor> else \<lceil>t\<rceil>)"

definition py_not :: "string option \<Rightarrow> bool" where
  "py_not t = (case t of None \<Rightarrow> True | Some s \<Rightarrow> s = [])"

text \<open>
  The element type of an array is named by its typecode. The typecodes of the integer
  types, from the numeric module's table (\<^verbatim>\<open>Int8\<close>, \<^verbatim>\<open>Int16\<close>, \<^verbatim>\<open>Int32\<close>, \<^verbatim>\<open>Int\<close> and
  the unsigned types); every other typecode, \<^verbatim>\<open>'f'\<close> and \<^verbatim>\<open>'d'\<close> among them, names a
  type with a true division.
\<close>

definition integer_typecodes :: "string list" where
  "integer_typecodes = [''1'', ''s'', ''i'', ''l'', ''b'', ''w'', ''u'']"

definition integer_typecode :: "string option \<Rightarrow> bool" where
  "integer_typecode type = (case type of None \<Rightarrow> False | Some k \<Rightarrow> k \<in> set integer_typecodes)"

text \<open>
  Modelled from the spec: \<^verbatim>\<open>utils.refcast\<close> (module \<^verbatim>\<open>mdp.utils\<close> is not among the
  sources) "casts the batch to the accumulator's element type", with "no upcasting": a
  cast to an integer type drops the fraction of an entry, any other cast keeps the entry
  (in exact arithmetic).
\<close>

definition cast_entry :: "string option \<Rightarrow> rat \<Rightarrow> number" where
  "cast_entry type e = Fin (if integer_typecode type then of_int (py_int e) else e)"

definition refcast :: "batch \<Rightarrow> string option \<Rightarrow> number matrix" where
  "refcast x type =
     \<lparr>ncols = ncols (x_array x), rows = map (map (cast_entry type)) (rows (x_array x))\<rparr>"

text \<open>
  Modelled from the spec: \<^verbatim>\<open>utils.scast\<close> (module \<^verbatim>\<open>mdp.utils\<close> is not among the
  sources) is \<open>cast(count, element_type)\<close>, the count as a scalar of the element type. In
  exact arithmetic it is the integer itself, as a rational.
\<close>

definition scast :: "int \<Rightarrow> string option \<Rightarrow> rat" where
  "scast n type = of_int n"

text \<open>
  The in-place division \<^verbatim>\<open>a /= c\<close> of an array by a scalar divides as the element type
  of \<^verbatim>\<open>a\<close> does (this is Python 2): an integer type rounds the quotient down, and
  leaves 0 where the divisor is 0; any other type divides exactly, and leaves a non-finite
  entry where the divisor is 0. Nothing is raised. The arrays of an accumulator are
  allocated with its \<^verbatim>\<open>_typecode\<close> (\<^verbatim>\<open>_init_internals\<close>) and never cast, so that is
  the element type the accumulator's divisions are given.
\<close>

definition divide_as :: "string option \<Rightarrow> number \<Rightarrow> rat \<Rightarrow> number" where
  "divide_as type e c =
     (case e of
        NonFinite \<Rightarrow> NonFinite
      | Fin r \<Rightarrow>
          if integer_typecode type then (if c = 0 then Fin 0 else Fin (of_int \<lfloor>r / c\<rfloor>))
          else (if c = 0 then NonFinite else Fin (r / c)))"

definition idiv2 :: "string option \<Rightarrow> number matrix \<Rightarrow> rat \<Rightarrow> number matrix" where
  "idiv2 type a c = \<lparr>ncols = ncols a, rows = map (map (\<lambda>e. divide_as type e c)) (rows a)\<rparr>"

definition idiv1 :: "string option \<Rightarrow> vector \<Rightarrow> rat \<Rightarrow> vector" where
  "idiv1 type u c = map (\<lambda>e. divide_as type e c) u"

text \<open>
  The in-place operators \<^verbatim>\<open>a += b\<close> and \<^verbatim>\<open>a -= b\<close> stretch \<^verbatim>\<open>b\<close> to the shape of
  \<^verbatim>\<open>a\<close>: along each axis \<^verbatim>\<open>b\<close> has the length of \<^verbatim>\<open>a\<close>, or length 1 and is
  repeated. Otherwise the operands do not fit, and the operator raises.
\<close>

definition stretch :: "nat \<Rightarrow> 'a list \<Rightarrow> 'a list" where
  "stretch n xs = concat (replicate n (take 1 xs))"

definition broadcast1 :: "'a list \<Rightarrow> nat \<Rightarrow> 'a list option" where
  "broadcast1 v n =
     (if length v = n then Some v
      else if length v = 1 then Some (stretch n v)
      else None)"

definition broadcast2 :: "'a matrix \<Rightarrow> nat \<Rightarrow> nat \<Rightarrow> 'a list list option" where
  "broadcast2 b n m =
     (if (nrows b = n \<or> nrows b = 1) \<and> (ncols b = m \<or> ncols b = 1)
      then Some (map (\<lambda>r. if ncols b = m then r else stretch m r)
                     (if nrows b = n then rows b else stretch n (rows b)))
      else None)"

definition iadd2 :: "number matrix \<Rightarrow> number matrix \<Rightarrow> number matrix option" where
  "iadd2 a b =
     (case broadcast2 b (nrows a) (ncols a) of
        None \<Rightarrow> None
      | Some rb \<Rightarrow> Some \<lparr>ncols = ncols a, rows = map2 (map2 (+)) (rows a) rb\<rparr>)"

definition isub2 :: "number matrix \<Rightarrow> number matrix \<Rightarrow> number matrix option" where
  "isub2 a b =
     (case broadcast2 b (nrows a) (ncols a) of
        None \<Rightarrow> None
      | Some rb \<Rightarrow> Some \<lparr>ncols = ncols a, rows = map2 (map2 (-)) (rows a) rb\<rparr>)"

definition iadd1 :: "vector \<Rightarrow> vector \<Rightarrow> vector option" where
  "iadd1 u v =
     (case broadcast1 v (length u) of
        None \<Rightarrow> None
      | Some w \<Rightarrow> Some (map2 (+) u w))"

text \<open>
  Python's slice \<^verbatim>\<open>x[a:b, :]\<close> of the rows: a missing bound is \<open>None\<close>, a negative
  bound counts from the end, and every bound is clipped to the number of rows.
\<close>

definition slice_bound :: "nat \<Rightarrow> int \<Rightarrow> nat" where
  "slice_bound n i = (if i < 0 then nat (max 0 (int n + i)) else min n (nat i))"

definition slice_rows :: "int option \<Rightarrow> int option \<Rightarrow> 'a matrix \<Rightarrow> 'a matrix" where
  "slice_rows a b m =
     (let n = nrows m;
          lo = (case a of None \<Rightarrow> 0 | Some i \<Rightarrow> slice_bound n i);
          hi = (case b of None \<Rightarrow> n | Some j \<Rightarrow> slice_bound n j)
      in \<lparr>ncols = ncols m, rows = take (hi - lo) (drop lo (rows m))\<rparr>)"


section \<open>The precision guard\<close>

text \<open>\<^verbatim>\<open>_limits = { 'd' : 1e13, 'f' : 1e5}\<close>\<close>

definition limits :: "string \<rightharpoonup> rat" where
  "limits = map_of [(''d'', 10 ^ 13), (''f'', 10 ^ 5)]"

text \<open>
  \<^verbatim>\<open>_check_roundoff(t, type)\<close> reads its two arguments and the table and assigns to
  nothing; it returns normally or raises \<^verbatim>\<open>MDPWarning\<close>. A typecode is \<^verbatim>\<open>None\<close> or a
  string.
\<close>

definition check_roundoff :: "rat \<Rightarrow> string option \<Rightarrow> error + unit" where
  "check_roundoff t type =
     (case type of
        None \<Rightarrow> Inr ()
      | Some k \<Rightarrow>
          (case limits k of
             None \<Rightarrow> Inr ()
           | Some bound \<Rightarrow>
               if of_int (py_int t) \<ge> bound then Inl (MDPWarning t k) else Inr ()))"


section \<open>The covariance accumulator\<close>

record CovarianceMatrix =
  typecode :: "string option"
  cov_mtx :: "number matrix option"
  avg :: "vector option"
  tlen :: int
  input_dim :: "nat option"  \<comment> \<open>the attribute exists only once \<^verbatim>\<open>_init_internals\<close> ran\<close>

definition CovarianceMatrix_init :: "string option \<Rightarrow> CovarianceMatrix" where
  "CovarianceMatrix_init tc =
     \<lparr>typecode = tc, cov_mtx = None, avg = None, tlen = 0, input_dim = None\<rparr>"

definition CovarianceMatrix_init_internals :: "batch \<Rightarrow> CovarianceMatrix \<Rightarrow> CovarianceMatrix" where
  "CovarianceMatrix_init_internals x s =
     (let s1 = (if py_not (typecode s) then s\<lparr>typecode := Some (x_typecode x)\<rparr> else s);
          dim = ncols (x_array x)
      in s1\<lparr>input_dim := Some dim,
             cov_mtx := Some (zeros2 dim),
             avg := Some (zeros1 dim)\<rparr>)"

text \<open>
  \<^verbatim>\<open>update\<close> and \<^verbatim>\<open>fix\<close> work in place, statement by statement; when a statement
  raises, the accumulator stays as the statements before it left it.
\<close>

definition CovarianceMatrix_update ::
  "batch \<Rightarrow> CovarianceMatrix \<Rightarrow> (error + unit) \<times> CovarianceMatrix" where
  "CovarianceMatrix_update x s0 =
     (let s = (if cov_mtx s0 = None then CovarianceMatrix_init_internals x s0 else s0);
          x' = refcast x (typecode s)
      in case cov_mtx s of
           None \<Rightarrow> (Inl TypeError, s)
         | Some c \<Rightarrow>
      (case mult (tr x') x' of
           None \<Rightarrow> (Inl ShapeError, s)
         | Some p \<Rightarrow>
      (case iadd2 c p of
           None \<Rightarrow> (Inl ShapeError, s)
         | Some c' \<Rightarrow>
      (let s1 = s\<lparr>cov_mtx := Some c'\<rparr>
       in case avg s1 of
           None \<Rightarrow> (Inl TypeError, s1)
         | Some a \<Rightarrow>
      (case iadd1 a (sum0 x') of
           None \<Rightarrow> (Inl ShapeError, s1)
         | Some a' \<Rightarrow>
           (Inr (), s1\<lparr>avg := Some a', tlen := tlen s1 + int (nrows x')\<rparr>))))))"

definition CovarianceMatrix_fix ::
  "CovarianceMatrix \<Rightarrow> (error + number matrix \<times> vector \<times> rat) \<times> CovarianceMatrix" where
  "CovarianceMatrix_fix s =
     (let type = typecode s;
          tl = scast (tlen s) type
      in case check_roundoff tl type of
           Inl e \<Rightarrow> (Inl e, s)
         | Inr _ \<Rightarrow>
      (case avg s of
           None \<Rightarrow> (Inl TypeError, s)
         | Some a \<Rightarrow>
      (let avg_mtx = idiv2 type (outerproduct a a) (tl * (tl - scast 1 type))
       in case cov_mtx s of
           None \<Rightarrow> (Inl TypeError, s)
         | Some c \<Rightarrow>
      (let c1 = idiv2 type c (tl - scast 1 type)
       in case isub2 c1 avg_mtx of
           None \<Rightarrow> (Inl ShapeError, s\<lparr>cov_mtx := Some c1\<rparr>)
         | Some c2 \<Rightarrow>
           (Inr (c2, idiv1 type a tl, tl),
            s\<lparr>cov_mtx := None, avg := None, tlen := 0\<rparr>)))))"


section \<open>The delayed covariance accumulator\<close>

record DelayCovarianceMatrix =
  dt :: int
  typecode_d :: "string option"
  cov_mtx_d :: "number matrix option"
  avg_d :: "vector option"
  avg_dt :: "vector option"
  tlen_d :: int
  input_dim_d :: "nat option"

definition DelayCovarianceMatrix_init :: "int \<Rightarrow> string option \<Rightarrow> DelayCovarianceMatrix" where
  "DelayCovarianceMatrix_init delay tc =
     \<lparr>dt = delay, typecode_d = tc, cov_mtx_d = None, avg_d = None, avg_dt = None,
      tlen_d = 0, input_dim_d = None\<rparr>"

definition DelayCovarianceMatrix_init_internals ::
  "batch \<Rightarrow> DelayCovarianceMatrix \<Rightarrow> DelayCovarianceMatrix" where
  "DelayCovarianceMatrix_init_internals x s =
     (let s1 = (if py_not (typecode_d s) then s\<lparr>typecode_d := Some (x_typecode x)\<rparr> else s);
          dim = ncols (x_array x)
      in s1\<lparr>input_dim_d := Some dim,
             cov_mtx_d := Some (zeros2 dim),
             avg_d := Some (zeros1 dim),
             avg_dt := Some (zeros1 dim)\<rparr>)"

text \<open>
  The two sums of \<^verbatim>\<open>update\<close> subtract vectors that are both column sums of slices of
  the same batch, hence of the same length.
\<close>

definition vsub :: "vector \<Rightarrow> vector \<Rightarrow> vector" where
  "vsub u v = map2 (-) u v"

definition DelayCovarianceMatrix_update ::
  "batch \<Rightarrow> DelayCovarianceMatrix \<Rightarrow> (error + unit) \<times> DelayCovarianceMatrix" where
  "DelayCovarianceMatrix_update x s0 =
     (let s = (if cov_mtx_d s0 = None then DelayCovarianceMatrix_init_internals x s0 else s0);
          x' = refcast x (typecode_d s);
          delay = dt s;
          tl = int (nrows x')
      in if tl < delay + 1 then (Inl (MDPException tl (delay + 1)), s)
         else
      (case cov_mtx_d s of
           None \<Rightarrow> (Inl TypeError, s)
         | Some c \<Rightarrow>
      (case mult (tr (slice_rows None (Some (tl - delay)) x'))
                 (slice_rows (Some delay) (Some tl) x') of
           None \<Rightarrow> (Inl ShapeError, s)
         | Some p \<Rightarrow>
      (case iadd2 c p of
           None \<Rightarrow> (Inl ShapeError, s)
         | Some c' \<Rightarrow>
      (let s1 = s\<lparr>cov_mtx_d := Some c'\<rparr>;
           totalsum = sum0 x'
       in case avg_d s1 of
           None \<Rightarrow> (Inl TypeError, s1)
         | Some a \<Rightarrow>
      (case iadd1 a (vsub totalsum (sum0 (slice_rows (Some (tl - delay)) None x'))) of
           None \<Rightarrow> (Inl ShapeError, s1)
         | Some a' \<Rightarrow>
      (let s2 = s1\<lparr>avg_d := Some a'\<rparr>
       in case avg_dt s2 of
           None \<Rightarrow> (Inl TypeError, s2)
         | Some b \<Rightarrow>
      (case iadd1 b (vsub totalsum (sum0 (slice_rows None (Some delay) x'))) of
           None \<Rightarrow> (Inl ShapeError, s2)
         | Some b' \<Rightarrow>
           (Inr (), s2\<lparr>avg_dt := Some b', tlen_d := tlen_d s2 + (tl - delay)\<rparr>)))))))))"

text \<open>\<^verbatim>\<open>fix(A)\<close>: the transform \<^verbatim>\<open>A\<close> is \<^verbatim>\<open>None\<close> or a 2-D array.\<close>

definition DelayCovarianceMatrix_fix ::
  "rat matrix option \<Rightarrow> DelayCovarianceMatrix \<Rightarrow>
     (error + number matrix \<times> vector \<times> vector \<times> rat) \<times> DelayCovarianceMatrix" where
  "DelayCovarianceMatrix_fix A s =
     (let type = typecode_d s;
          tl = scast (tlen_d s) type
      in case check_roundoff tl type of
           Inl e \<Rightarrow> (Inl e, s)
         | Inr _ \<Rightarrow>
      (case (avg_d s, avg_dt s) of
           (None, _) \<Rightarrow> (Inl TypeError, s)
         | (Some a, None) \<Rightarrow> (Inl TypeError, s)
         | (Some a, Some b) \<Rightarrow>
      (let avg_mtx = idiv2 type (outerproduct a b) tl
       in case cov_mtx_d s of
           None \<Rightarrow> (Inl TypeError, s)
         | Some c \<Rightarrow>
      (case isub2 c avg_mtx of
           None \<Rightarrow> (Inl ShapeError, s)
         | Some c1 \<Rightarrow>
      (let c2 = idiv2 type c1 (tl - scast 1 type);
           s2 = s\<lparr>cov_mtx_d := Some c2\<rparr>
       in case (case A of
                  None \<Rightarrow> Some c2
                | Some A' \<Rightarrow>
                    (case mult c2 (tr (asarray A')) of
                       None \<Rightarrow> None
                     | Some m \<Rightarrow> mult (asarray A') m)) of
           None \<Rightarrow> (Inl ShapeError, s2)
         | Some c3 \<Rightarrow>
           (Inr (c3, idiv1 type a tl, idiv1 type b tl, tl),
            s\<lparr>cov_mtx_d := None, avg_d := None, avg_dt := None, tlen_d := 0\<rparr>))))))"


section \<open>Calls in sequence\<close>

text \<open>
  A client feeds batches one after the other and then finalizes; an exception ends the
  sequence where it is raised.
\<close>

fun CovarianceMatrix_feed ::
  "batch list \<Rightarrow> CovarianceMatrix \<Rightarrow> (error + unit) \<times> CovarianceMatrix" where
  "CovarianceMatrix_feed [] s = (Inr (), s)"
| "CovarianceMatrix_feed (x # xs) s =
     (case CovarianceMatrix_update x s of
        (Inl e, s') \<Rightarrow> (Inl e, s')
      | (Inr _, s') \<Rightarrow> CovarianceMatrix_feed xs s')"

definition CovarianceMatrix_run ::
  "batch list \<Rightarrow> CovarianceMatrix \<Rightarrow>
     (error + number matrix \<times> vector \<times> rat) \<times> CovarianceMatrix" where
  "CovarianceMatrix_run xs s =
     (case CovarianceMatrix_feed xs s of
        (Inl e, s') \<Rightarrow> (Inl e, s')
      | (Inr _, s') \<Rightarrow> CovarianceMatrix_fix s')"

fun DelayCovarianceMatrix_feed ::
  "batch list \<Rightarrow> DelayCovarianceMatrix \<Rightarrow> (error + unit) \<times> DelayCovarianceMatrix" where
  "DelayCovarianceMatrix_feed [] s = (Inr (), s)"
| "DelayCovarianceMatrix_feed (x # xs) s =
     (case DelayCovarianceMatrix_update x s of
        (Inl e, s') \<Rightarrow> (Inl e, s')
      | (Inr _, s') \<Rightarrow> DelayCovarianceMatrix_feed xs s')"

definition DelayCovarianceMatrix_run ::
  "batch list \<Rightarrow> rat matrix option \<Rightarrow> DelayCovarianceMatrix \<Rightarrow>
     (error + number matrix \<times> vector \<times> vector \<times> rat) \<times> DelayCovarianceMatrix" where
  "DelayCovarianceMatrix_run xs A s =
     (case DelayCovarianceMatrix_feed xs s of
        (Inl e, s') \<Rightarrow> (Inl e, s')
      | (Inr _, s') \<Rightarrow> DelayCovarianceMatrix_fix A s')"

text \<open>The batch \<open>B1 ++ B2\<close>: the rows of two batches of one width and one typecode.\<close>

definition append_batch :: "batch \<Rightarrow> batch \<Rightarrow> batch" where
  "append_batch x y =
     \<lparr>x_typecode = x_typecode x,
      x_array = \<lparr>ncols = ncols (x_array x), rows = rows (x_array x) @ rows (x_array y)\<rparr>\<rparr>"


section \<open>The textbook estimator\<close>

text \<open>
  The standard unbiased sample covariance of the rows of a batch, in two passes: the mean
  first, then the products of the centred samples over \<open>n - 1\<close>. It is what the
  accumulator's result is compared with.
\<close>

definition sample_mean :: "rat matrix \<Rightarrow> rat list" where
  "sample_mean x = map (\<lambda>j. sum_list (column x j) / of_nat (nrows x)) [0..<ncols x]"

definition sample_covariance :: "rat matrix \<Rightarrow> rat matrix" where
  "sample_covariance x =
     \<lparr>ncols = ncols x,
      rows = map (\<lambda>i. map (\<lambda>j.
               sum_list (map (\<lambda>r. (r ! i - sample_mean x ! i) * (r ! j - sample_mean x ! j))
                             (rows x))
                 / (of_nat (nrows x) - 1)) [0..<ncols x]) [0..<ncols x]\<rparr>"

text \<open>
  The lagged covariance entry by entry, from running sums \<open>c\<close>, \<open>a\<close>, \<open>b\<close> and a count
  \<open>n\<close>: \<open>(c\<^sub>i\<^sub>j - a\<^sub>i b\<^sub>j / n) / (n - 1)\<close>, each division being that of the element type; the
  plain covariance \<open>c\<^sub>i\<^sub>j / (n - 1) - a\<^sub>i a\<^sub>j / (n (n - 1))\<close> likewise; and the matrix
  \<open>A (m A\<^sup>T)\<close> entry by entry.
\<close>

definition lagged_covariance ::
  "string option \<Rightarrow> number matrix \<Rightarrow> vector \<Rightarrow> vector \<Rightarrow> rat \<Rightarrow> number matrix" where
  "lagged_covariance type c a b n =
     \<lparr>ncols = ncols c,
      rows = map (\<lambda>i. map (\<lambda>j.
               divide_as type (rows c ! i ! j - divide_as type (a ! i * b ! j) n) (n - 1))
                 [0..<ncols c]) [0..<nrows c]\<rparr>"

definition plain_covariance ::
  "string option \<Rightarrow> number matrix \<Rightarrow> vector \<Rightarrow> rat \<Rightarrow> number matrix" where
  "plain_covariance type c a n =
     \<lparr>ncols = ncols c,
      rows = map (\<lambda>i. map (\<lambda>j.
               divide_as type (rows c ! i ! j) (n - 1)
                 - divide_as type (a ! i * a ! j) (n * (n - 1)))
                 [0..<ncols c]) [0..<nrows c]\<rparr>"

definition transformed :: "rat matrix \<Rightarrow> number matrix \<Rightarrow> number matrix" where
  "transformed A m =
     \<lparr>ncols = nrows A,
      rows = map (\<lambda>p. map (\<lambda>q.
               sum_list (map (\<lambda>i. Fin (rows A ! p ! i) *
                   sum_list (map (\<lambda>j. rows m ! i ! j * Fin (rows A ! q ! j)) [0..<ncols m]))
                 [0..<nrows m])) [0..<nrows A]) [0..<nrows A]\<rparr>"

text \<open>
  What \<^verbatim>\<open>mult(tr(x), x)\<close> comes to (lemma \<open>gram_eq\<close> below): the matrix of the products
  of the columns of \<open>x\<close>.
\<close>

definition gram :: "number matrix \<Rightarrow> number matrix" where
  "gram x =
     \<lparr>ncols = ncols x,
      rows = map (\<lambda>i. map (\<lambda>j. dot (column x i) (column x j)) [0..<ncols x]) [0..<ncols x]\<rparr>"


section \<open>States of an accumulator\<close>

text \<open>
  An accumulator is empty as constructed and after \<^verbatim>\<open>fix\<close>; between the first
  \<^verbatim>\<open>update\<close> and \<^verbatim>\<open>fix\<close> its running sums are allocated for one dimension \<open>D\<close>.
\<close>

definition empty_state :: "CovarianceMatrix \<Rightarrow> bool" where
  "empty_state s = (cov_mtx s = None \<and> avg s = None \<and> tlen s = 0)"

definition allocated :: "nat \<Rightarrow> CovarianceMatrix \<Rightarrow> bool" where
  "allocated D s =
     (case (cov_mtx s, avg s) of
        (Some c, Some a) \<Rightarrow> ncols c = D \<and> nrows c = D \<and> wf_matrix c \<and> length a = D
      | _ \<Rightarrow> False)"

definition empty_state_d :: "DelayCovarianceMatrix \<Rightarrow> bool" where
  "empty_state_d s = (cov_mtx_d s = None \<and> avg_d s = None \<and> avg_dt s = None \<and> tlen_d s = 0)"


section \<open>Arithmetic of entries\<close>

lemma number_arith [simp]:
  "Fin a + Fin b = Fin (a + b)" "NonFinite + x = NonFinite" "x + NonFinite = NonFinite"
  "Fin a - Fin b = Fin (a - b)" "NonFinite - x = NonFinite" "x - NonFinite = NonFinite"
  "Fin a * Fin b = Fin (a * b)" "NonFinite * x = NonFinite" "x * NonFinite = NonFinite"
  by (simp_all add: plus_number_def minus_number_def times_number_def split: number.splits)

lemma numeral_number: "(numeral k :: number) = Fin (numeral k)"
proof (induction k)
  case One
  then show ?case by (simp add: one_number_def)
next
  case (Bit0 k)
  have "(numeral (Num.Bit0 k) :: number) = numeral k + numeral k"
    by (rule numeral_Bit0)
  also have "\<dots> = Fin (numeral k + numeral k)"
    by (simp only: Bit0.IH number_arith)
  also have "numeral k + numeral k = (numeral (Num.Bit0 k) :: rat)"
    by (rule numeral_Bit0 [symmetric])
  finally show ?case .
next
  case (Bit1 k)
  have "(numeral (Num.Bit1 k) :: number) = numeral k + numeral k + 1"
    by (rule numeral_Bit1)
  also have "\<dots> = Fin (numeral k + numeral k + 1)"
    by (simp only: Bit1.IH number_arith one_number_def)
  also have "numeral k + numeral k + 1 = (numeral (Num.Bit1 k) :: rat)"
    by (rule numeral_Bit1 [symmetric])
  finally show ?case .
qed

lemmas number_numerals = numeral_number zero_number_def one_number_def

lemma sum_list_Fin: "sum_list (map Fin rs) = Fin (sum_list rs)"
  by (induction rs) (simp_all add: zero_number_def)

lemma py_int_of_int: "py_int (of_int n) = n"
  by (simp add: py_int_def)

lemma py_int_numeral [simp]: "py_int (numeral k) = numeral k" "py_int 0 = 0" "py_int 1 = 1"
  by (simp_all add: py_int_def)

lemma cast_entry_numeral [simp]:
  "cast_entry type (numeral k) = Fin (numeral k)" "cast_entry type 0 = Fin 0"
  "cast_entry type 1 = Fin 1"
  by (simp_all add: cast_entry_def)

lemma refcast_shape [simp]:
  "ncols (refcast x type) = ncols (x_array x)" "nrows (refcast x type) = nrows (x_array x)"
  by (simp_all add: refcast_def nrows_def)


section \<open>The precision guard: properties\<close>

lemma limits_simps:
  "limits k = (if k = ''d'' then Some (10 ^ 13) else if k = ''f'' then Some (10 ^ 5) else None)"
  by (simp add: limits_def)

lemma check_roundoff_eq:
  "check_roundoff t ty =
     (if ty = Some ''d'' \<and> 10 ^ 13 \<le> py_int t then Inl (MDPWarning t ''d'')
      else if ty = Some ''f'' \<and> 10 ^ 5 \<le> py_int t then Inl (MDPWarning t ''f'')
      else Inr ())"
proof -
  have d: "((10::rat) ^ 13 \<le> of_int n) = (10 ^ 13 \<le> n)" for n
    by (metis of_int_le_iff of_int_numeral of_int_power)
  have f: "((10::rat) ^ 5 \<le> of_int n) = (10 ^ 5 \<le> n)" for n
    by (metis of_int_le_iff of_int_numeral of_int_power)
  show ?thesis
  proof (cases ty)
    case None
    then show ?thesis by (simp add: check_roundoff_def)
  next
    case (Some k)
    then show ?thesis
      unfolding check_roundoff_def limits_simps
      by (simp del: power_numeral add: d f)
  qed
qed

lemma check_roundoff_small:
  "n < 10 ^ 5 \<Longrightarrow> check_roundoff (scast n ty) ty = Inr ()"
  by (auto simp add: check_roundoff_eq scast_def py_int_of_int)

text \<open>
  Claim C3. For every count \<open>t\<close> and element type, the guard raises the precision warning
  exactly when the type is \<^verbatim>\<open>'d'\<close> and \<^verbatim>\<open>int(t)\<close> is at least \<open>10\<^sup>1\<^sup>3\<close>, or the type
  is \<^verbatim>\<open>'f'\<close> and \<^verbatim>\<open>int(t)\<close> is at least \<open>10\<^sup>5\<close>; otherwise, and for every other type,
  it returns normally. The guard is a function of its two arguments and has no state to
  change.
\<close>

theorem check_roundoff_raises_iff:
  "((\<exists>k. check_roundoff t type = Inl (MDPWarning t k)) =
      (type = Some ''d'' \<and> 10 ^ 13 \<le> py_int t \<or> type = Some ''f'' \<and> 10 ^ 5 \<le> py_int t))
   \<and> ((check_roundoff t type = Inr ()) =
      (\<not> (type = Some ''d'' \<and> 10 ^ 13 \<le> py_int t \<or> type = Some ''f'' \<and> 10 ^ 5 \<le> py_int t)))
   \<and> (type \<noteq> Some ''d'' \<and> type \<noteq> Some ''f'' \<longrightarrow> check_roundoff t type = Inr ())"
  by (simp add: check_roundoff_eq del: power_numeral)

theorem check_roundoff_raises_iff_witness:
  "(\<exists>k. check_roundoff 100000 (Some ''f'') = Inl (MDPWarning 100000 k))
   \<and> check_roundoff (199999 / 2) (Some ''f'') = Inr ()
   \<and> (\<exists>k. check_roundoff 10000000000000 (Some ''d'') = Inl (MDPWarning 10000000000000 k))
   \<and> check_roundoff 9999999999999 (Some ''d'') = Inr ()
   \<and> check_roundoff 10000000000000 (Some ''i'') = Inr ()
   \<and> check_roundoff 10000000000000 None = Inr ()"
proof -
  have i: "py_int 100000 = 100000" "py_int (199999 / 2) = 99999"
    "py_int 10000000000000 = 10000000000000" "py_int 9999999999999 = 9999999999999"
    by (simp_all add: py_int_def, code_simp)
  show ?thesis
    using check_roundoff_raises_iff [of 100000 "Some ''f''"]
      check_roundoff_raises_iff [of "199999 / 2" "Some ''f''"]
      check_roundoff_raises_iff [of 10000000000000 "Some ''d''"]
      check_roundoff_raises_iff [of 9999999999999 "Some ''d''"]
      check_roundoff_raises_iff [of 10000000000000 "Some ''i''"]
      check_roundoff_raises_iff [of 10000000000000 None]
    by (simp add: i)
qed

section \<open>The plain accumulator on one batch\<close>

lemma update_scenario:
  "CovarianceMatrix_update
       \<lparr>x_typecode = k, x_array = \<lparr>ncols = 2, rows = [[1, 2], [3, 4], [5, 6]]\<rparr>\<rparr>
       (CovarianceMatrix_init tc) =
     (Inr (), \<lparr>typecode = (if py_not tc then Some k else tc),
        cov_mtx = Some \<lparr>ncols = 2, rows = [[35, 44], [44, 56]]\<rparr>,
        avg = Some [9, 12], tlen = 3, input_dim = Some 2\<rparr>)"
  by (simp add: CovarianceMatrix_update_def CovarianceMatrix_init_def
      CovarianceMatrix_init_internals_def refcast_def mult_def tr_def nrows_def column_def
      dot_def iadd2_def iadd1_def broadcast2_def broadcast1_def sum0_def zeros1_def zeros2_def
      Let_def upt_rec numeral_2_eq_2 number_numerals split: if_splits)

lemma fix_scenario:
  "CovarianceMatrix_fix \<lparr>typecode = ty,
        cov_mtx = Some \<lparr>ncols = 2, rows = [[35, 44], [44, 56]]\<rparr>,
        avg = Some [9, 12], tlen = 3, input_dim = Some 2\<rparr> =
     (Inr (\<lparr>ncols = 2, rows = [[4, 4], [4, 4]]\<rparr>, [3, 4], 3),
      \<lparr>typecode = ty, cov_mtx = None, avg = None, tlen = 0, input_dim = Some 2\<rparr>)"
proof -
  have g: "check_roundoff (scast 3 ty) ty = Inr ()"
    by (rule check_roundoff_small) simp
  have d: "divide_as ty (Fin 81) 6 = Fin (if integer_typecode ty then 13 else 27 / 2)"
    "divide_as ty (Fin 108) 6 = Fin 18" "divide_as ty (Fin 144) 6 = Fin 24"
    "divide_as ty (Fin 35) 2 = Fin (if integer_typecode ty then 17 else 35 / 2)"
    "divide_as ty (Fin 44) 2 = Fin 22" "divide_as ty (Fin 56) 2 = Fin 28"
    "divide_as ty (Fin 9) 3 = Fin 3" "divide_as ty (Fin 12) 3 = Fin 4"
  proof -
    have fl: "\<lfloor>27 / 2 :: rat\<rfloor> = 13" "\<lfloor>35 / 2 :: rat\<rfloor> = 17"
      by (rule floor_unique; simp)+
    show "divide_as ty (Fin 81) 6 = Fin (if integer_typecode ty then 13 else 27 / 2)"
      "divide_as ty (Fin 108) 6 = Fin 18" "divide_as ty (Fin 144) 6 = Fin 24"
      "divide_as ty (Fin 35) 2 = Fin (if integer_typecode ty then 17 else 35 / 2)"
      "divide_as ty (Fin 44) 2 = Fin 22" "divide_as ty (Fin 56) 2 = Fin 28"
      "divide_as ty (Fin 9) 3 = Fin 3" "divide_as ty (Fin 12) 3 = Fin 4"
      by (simp_all add: divide_as_def fl)
  qed
  show ?thesis
    unfolding CovarianceMatrix_fix_def
    by (simp add: g Let_def,
        simp add: scast_def outerproduct_def idiv2_def idiv1_def isub2_def broadcast2_def
          nrows_def number_numerals d)
qed

text \<open>
  Claim C2. A plain accumulator, whatever typecode it was constructed with, that is given
  the single batch \<open>[[1,2],[3,4],[5,6]]\<close> and then finalized returns the covariance
  \<open>[[4,4],[4,4]]\<close>, the mean \<open>[3,4]\<close> and the count \<open>3\<close>; the covariance is the
  textbook unbiased sample covariance of the three points.
\<close>

theorem plain_accumulator_scenario:
  "CovarianceMatrix_run
       [\<lparr>x_typecode = k, x_array = \<lparr>ncols = 2, rows = [[1, 2], [3, 4], [5, 6]]\<rparr>\<rparr>]
       (CovarianceMatrix_init tc) =
     (Inr (\<lparr>ncols = 2, rows = [[4, 4], [4, 4]]\<rparr>, [3, 4], 3),
      \<lparr>typecode = (if py_not tc then Some k else tc), cov_mtx = None, avg = None, tlen = 0,
         input_dim = Some 2\<rparr>)
   \<and> sample_covariance \<lparr>ncols = 2, rows = [[1, 2], [3, 4], [5, 6]]\<rparr> =
       \<lparr>ncols = 2, rows = [[4, 4], [4, 4]]\<rparr>"
proof
  show "sample_covariance \<lparr>ncols = 2, rows = [[1, 2], [3, 4], [5, 6]]\<rparr> =
       \<lparr>ncols = 2, rows = [[4, 4], [4, 4]]\<rparr>"
    by code_simp
  show "CovarianceMatrix_run
       [\<lparr>x_typecode = k, x_array = \<lparr>ncols = 2, rows = [[1, 2], [3, 4], [5, 6]]\<rparr>\<rparr>]
       (CovarianceMatrix_init tc) =
     (Inr (\<lparr>ncols = 2, rows = [[4, 4], [4, 4]]\<rparr>, [3, 4], 3),
      \<lparr>typecode = (if py_not tc then Some k else tc), cov_mtx = None, avg = None, tlen = 0,
         input_dim = Some 2\<rparr>)"
    unfolding CovarianceMatrix_run_def CovarianceMatrix_feed.simps update_scenario
    by (simp only: prod.case sum.case fix_scenario)
qed

section \<open>Finalizing at the precision ceiling\<close>

lemma fix_guard_raises:
  "check_roundoff (scast (tlen s) (typecode s)) (typecode s) = Inl e \<Longrightarrow>
     CovarianceMatrix_fix s = (Inl e, s)"
  by (simp add: CovarianceMatrix_fix_def Let_def)

lemma fix_d_guard_raises:
  "check_roundoff (scast (tlen_d s) (typecode_d s)) (typecode_d s) = Inl e \<Longrightarrow>
     DelayCovarianceMatrix_fix A s = (Inl e, s)"
  by (simp add: DelayCovarianceMatrix_fix_def Let_def)

text \<open>
  Claim C7. When the count of an accumulator, plain or delayed, has reached the ceiling of
  its element type, \<^verbatim>\<open>fix\<close> raises the precision warning and returns the accumulator
  exactly as it was: the guard runs before the first in-place operation.
\<close>

theorem fix_precision_warning_keeps_state:
  "(typecode s = Some ''d'' \<and> 10 ^ 13 \<le> tlen s \<or> typecode s = Some ''f'' \<and> 10 ^ 5 \<le> tlen s
      \<longrightarrow> (\<exists>k. CovarianceMatrix_fix s = (Inl (MDPWarning (of_int (tlen s)) k), s)))
   \<and> (typecode_d d = Some ''d'' \<and> 10 ^ 13 \<le> tlen_d d \<or>
        typecode_d d = Some ''f'' \<and> 10 ^ 5 \<le> tlen_d d
      \<longrightarrow> (\<exists>k. DelayCovarianceMatrix_fix A d = (Inl (MDPWarning (of_int (tlen_d d)) k), d)))"
proof (intro conjI impI)
  assume h: "typecode s = Some ''d'' \<and> 10 ^ 13 \<le> tlen s \<or> typecode s = Some ''f'' \<and> 10 ^ 5 \<le> tlen s"
  then obtain k where "check_roundoff (scast (tlen s) (typecode s)) (typecode s)
       = Inl (MDPWarning (of_int (tlen s)) k)"
    using check_roundoff_eq [of "scast (tlen s) (typecode s)" "typecode s"]
    by (auto simp add: scast_def py_int_of_int simp del: power_numeral)
  then show "\<exists>k. CovarianceMatrix_fix s = (Inl (MDPWarning (of_int (tlen s)) k), s)"
    using fix_guard_raises by blast
next
  assume h: "typecode_d d = Some ''d'' \<and> 10 ^ 13 \<le> tlen_d d \<or>
        typecode_d d = Some ''f'' \<and> 10 ^ 5 \<le> tlen_d d"
  then obtain k where "check_roundoff (scast (tlen_d d) (typecode_d d)) (typecode_d d)
       = Inl (MDPWarning (of_int (tlen_d d)) k)"
    using check_roundoff_eq [of "scast (tlen_d d) (typecode_d d)" "typecode_d d"]
    by (auto simp add: scast_def py_int_of_int simp del: power_numeral)
  then show "\<exists>k. DelayCovarianceMatrix_fix A d = (Inl (MDPWarning (of_int (tlen_d d)) k), d)"
    using fix_d_guard_raises by blast
qed

theorem fix_precision_warning_keeps_state_witness:
  "(\<exists>k. CovarianceMatrix_fix
      \<lparr>typecode = Some ''f'', cov_mtx = Some \<lparr>ncols = 1, rows = [[7]]\<rparr>, avg = Some [5],
       tlen = 100000, input_dim = Some 1\<rparr> =
     (Inl (MDPWarning 100000 k),
      \<lparr>typecode = Some ''f'', cov_mtx = Some \<lparr>ncols = 1, rows = [[7]]\<rparr>, avg = Some [5],
       tlen = 100000, input_dim = Some 1\<rparr>))
   \<and> (\<exists>k. DelayCovarianceMatrix_fix (Some \<lparr>ncols = 1, rows = [[2]]\<rparr>)
      \<lparr>dt = 1, typecode_d = Some ''d'', cov_mtx_d = Some \<lparr>ncols = 1, rows = [[7]]\<rparr>,
       avg_d = Some [5], avg_dt = Some [6], tlen_d = 10000000000000, input_dim_d = Some 1\<rparr> =
     (Inl (MDPWarning 10000000000000 k),
      \<lparr>dt = 1, typecode_d = Some ''d'', cov_mtx_d = Some \<lparr>ncols = 1, rows = [[7]]\<rparr>,
       avg_d = Some [5], avg_dt = Some [6], tlen_d = 10000000000000, input_dim_d = Some 1\<rparr>))"
  using fix_precision_warning_keeps_state
    [of "\<lparr>typecode = Some ''f'', cov_mtx = Some \<lparr>ncols = 1, rows = [[7]]\<rparr>, avg = Some [5],
       tlen = 100000, input_dim = Some 1\<rparr>"
       "\<lparr>dt = 1, typecode_d = Some ''d'', cov_mtx_d = Some \<lparr>ncols = 1, rows = [[7]]\<rparr>,
       avg_d = Some [5], avg_dt = Some [6], tlen_d = 10000000000000, input_dim_d = Some 1\<rparr>"
       "Some \<lparr>ncols = 1, rows = [[2]]\<rparr>"]
  by simp

section \<open>Undersized batches\<close>

text \<open>
  \<^verbatim>\<open>update\<close> allocates the running sums before it looks at the length of the batch: a
  new accumulator with lag 3 that is given two rows raises, and is no longer as it was
  constructed.
\<close>

theorem update_undersized_fresh_counterexample:
  "DelayCovarianceMatrix_update
       \<lparr>x_typecode = ''d'', x_array = \<lparr>ncols = 2, rows = [[1, 2], [3, 4]]\<rparr>\<rparr>
       (DelayCovarianceMatrix_init 3 None) =
     (Inl (MDPException 2 4),
      \<lparr>dt = 3, typecode_d = Some ''d'',
       cov_mtx_d = Some \<lparr>ncols = 2, rows = [[0, 0], [0, 0]]\<rparr>,
       avg_d = Some [0, 0], avg_dt = Some [0, 0], tlen_d = 0, input_dim_d = Some 2\<rparr>)
   \<and> \<lparr>dt = 3, typecode_d = Some ''d'',
       cov_mtx_d = Some \<lparr>ncols = 2, rows = [[0, 0], [0, 0]]\<rparr>,
       avg_d = Some [0, 0], avg_dt = Some [0, 0], tlen_d = 0, input_dim_d = Some 2\<rparr>
     \<noteq> DelayCovarianceMatrix_init 3 None"
  by code_simp

text \<open>
  Claim C4, as amended. A batch with fewer than \<open>dt + 1\<close> rows makes \<^verbatim>\<open>update\<close> raise
  the data-validity error. An accumulator whose running matrix is allocated is left
  exactly as it was. An accumulator whose running matrix is unset is left with its count
  and lag as they were, but with zeroed running sums of the batch's width, the dimension
  recorded, and the batch's typecode adopted when it had none.
\<close>

theorem update_undersized:
  "int (nrows (x_array x)) < dt s + 1 \<Longrightarrow>
     fst (DelayCovarianceMatrix_update x s) =
       Inl (MDPException (int (nrows (x_array x))) (dt s + 1))
     \<and> (cov_mtx_d s \<noteq> None \<longrightarrow> snd (DelayCovarianceMatrix_update x s) = s)
     \<and> (cov_mtx_d s = None \<longrightarrow>
          snd (DelayCovarianceMatrix_update x s) =
            s\<lparr>typecode_d :=
                 (if py_not (typecode_d s) then Some (x_typecode x) else typecode_d s),
               input_dim_d := Some (ncols (x_array x)),
               cov_mtx_d := Some (zeros2 (ncols (x_array x))),
               avg_d := Some (zeros1 (ncols (x_array x))),
               avg_dt := Some (zeros1 (ncols (x_array x)))\<rparr>)"
  by (auto simp add: DelayCovarianceMatrix_update_def DelayCovarianceMatrix_init_internals_def
      Let_def)

theorem update_undersized_witness:
  "DelayCovarianceMatrix_update
       \<lparr>x_typecode = ''d'', x_array = \<lparr>ncols = 2, rows = [[1, 2], [3, 4]]\<rparr>\<rparr>
       \<lparr>dt = 3, typecode_d = Some ''f'',
        cov_mtx_d = Some \<lparr>ncols = 2, rows = [[5, 6], [7, 8]]\<rparr>,
        avg_d = Some [1, 2], avg_dt = Some [3, 4], tlen_d = 2, input_dim_d = Some 2\<rparr> =
     (Inl (MDPException 2 4),
      \<lparr>dt = 3, typecode_d = Some ''f'',
        cov_mtx_d = Some \<lparr>ncols = 2, rows = [[5, 6], [7, 8]]\<rparr>,
        avg_d = Some [1, 2], avg_dt = Some [3, 4], tlen_d = 2, input_dim_d = Some 2\<rparr>)
   \<and> DelayCovarianceMatrix_update
       \<lparr>x_typecode = ''d'', x_array = \<lparr>ncols = 2, rows = [[1, 2], [3, 4]]\<rparr>\<rparr>
       \<lparr>dt = 3, typecode_d = None, cov_mtx_d = None, avg_d = None, avg_dt = None,
        tlen_d = 0, input_dim_d = None\<rparr> =
     (Inl (MDPException 2 4),
      \<lparr>dt = 3, typecode_d = Some ''d'',
        cov_mtx_d = Some \<lparr>ncols = 2, rows = [[0, 0], [0, 0]]\<rparr>,
        avg_d = Some [0, 0], avg_dt = Some [0, 0], tlen_d = 0, input_dim_d = Some 2\<rparr>)"
  using update_undersized
    [of "\<lparr>x_typecode = ''d'', x_array = \<lparr>ncols = 2, rows = [[1, 2], [3, 4]]\<rparr>\<rparr>"
        "\<lparr>dt = 3, typecode_d = Some ''f'',
          cov_mtx_d = Some \<lparr>ncols = 2, rows = [[5, 6], [7, 8]]\<rparr>,
          avg_d = Some [1, 2], avg_dt = Some [3, 4], tlen_d = 2, input_dim_d = Some 2\<rparr>"]
    update_undersized
    [of "\<lparr>x_typecode = ''d'', x_array = \<lparr>ncols = 2, rows = [[1, 2], [3, 4]]\<rparr>\<rparr>"
        "\<lparr>dt = 3, typecode_d = None, cov_mtx_d = None, avg_d = None, avg_dt = None,
          tlen_d = 0, input_dim_d = None\<rparr>"]
  by (simp add: nrows_def py_not_def zeros1_def zeros2_def numeral_2_eq_2 prod_eq_iff)

section \<open>Matrix products entry by entry\<close>

lemma dot_sum:
  "length u = length v \<Longrightarrow> dot u v = (\<Sum>k<length u. u ! k * v ! k)"
proof -
  assume l: "length u = length v"
  have "dot u v = sum_list (map (\<lambda>k. u ! k * v ! k) [0..<length u])"
    unfolding dot_def using l
    by (intro arg_cong [where f = sum_list] nth_equalityI) simp_all
  also have "\<dots> = (\<Sum>k<length u. u ! k * v ! k)"
    by (simp add: interv_sum_list_conv_sum_set_nat atLeast0LessThan)
  finally show ?thesis .
qed

lemma wf_matrix_nth:
  "wf_matrix m \<Longrightarrow> i < nrows m \<Longrightarrow> length (rows m ! i) = ncols m"
  by (simp add: wf_matrix_def nrows_def list_all_length)

lemma tr_shape [simp]: "ncols (tr m) = nrows m" "nrows (tr m) = ncols m"
  by (simp_all add: tr_def nrows_def)

lemma tr_entry:
  "j < ncols m \<Longrightarrow> i < nrows m \<Longrightarrow> rows (tr m) ! j ! i = rows m ! i ! j"
  by (simp add: tr_def column_def nrows_def)

lemma wf_tr [simp]: "wf_matrix (tr m)"
  by (simp add: wf_matrix_def tr_def column_def nrows_def list_all_iff)

lemma mult_Some:
  "ncols a = nrows b \<Longrightarrow> \<exists>m. mult a b = Some m \<and> ncols m = ncols b \<and> nrows m = nrows a \<and> wf_matrix m"
  by (simp add: mult_def nrows_def wf_matrix_def list_all_iff)

lemma mult_entry:
  assumes "mult a b = Some m" "wf_matrix a" "i < nrows a" "j < ncols b"
  shows "rows m ! i ! j = (\<Sum>k<ncols a. rows a ! i ! k * rows b ! k ! j)"
proof -
  from assms(1) have ab: "ncols a = nrows b"
    and m: "m = \<lparr>ncols = ncols b,
                 rows = map (\<lambda>r. map (\<lambda>j. dot r (column b j)) [0..<ncols b]) (rows a)\<rparr>"
    by (auto simp add: mult_def split: if_splits)
  have len: "length (rows a ! i) = ncols a"
    using assms(2,3) by (rule wf_matrix_nth)
  have "rows m ! i ! j = dot (rows a ! i) (column b j)"
    using assms(3,4) by (simp add: m nrows_def)
  also have "\<dots> = (\<Sum>k<ncols a. rows a ! i ! k * column b j ! k)"
    using dot_sum [of "rows a ! i" "column b j"] len ab
    by (simp add: column_def nrows_def)
  also have "\<dots> = (\<Sum>k<ncols a. rows a ! i ! k * rows b ! k ! j)"
    using ab by (intro sum.cong) (simp_all add: column_def nrows_def)
  finally show ?thesis .
qed

section \<open>Equality of arrays\<close>

lemma matrix_eqI:
  assumes "ncols m = ncols m'" "nrows m = nrows m'"
    and "\<And>i. i < nrows m \<Longrightarrow> length (rows m ! i) = length (rows m' ! i)"
    and "\<And>i j. i < nrows m \<Longrightarrow> j < length (rows m ! i) \<Longrightarrow> rows m ! i ! j = rows m' ! i ! j"
  shows "m = (m' :: 'a matrix)"
proof -
  have "rows m = rows m'"
    using assms(2-4) by (intro nth_equalityI) (simp_all add: nrows_def)
  then show ?thesis using assms(1) by simp
qed

section \<open>Operands of one shape\<close>

lemma broadcast2_same:
  "nrows b = n \<Longrightarrow> ncols b = m \<Longrightarrow> broadcast2 b n m = Some (rows b)"
  by (simp add: broadcast2_def)

lemma broadcast1_same: "length v = n \<Longrightarrow> broadcast1 v n = Some v"
  by (simp add: broadcast1_def)

lemma isub2_same:
  "nrows b = nrows a \<Longrightarrow> ncols b = ncols a \<Longrightarrow>
     isub2 a b = Some \<lparr>ncols = ncols a, rows = map2 (map2 (-)) (rows a) (rows b)\<rparr>"
  by (simp add: isub2_def broadcast2_same)

lemma iadd2_same:
  "nrows b = nrows a \<Longrightarrow> ncols b = ncols a \<Longrightarrow>
     iadd2 a b = Some \<lparr>ncols = ncols a, rows = map2 (map2 (+)) (rows a) (rows b)\<rparr>"
  by (simp add: iadd2_def broadcast2_same)

lemma iadd1_same: "length v = length u \<Longrightarrow> iadd1 u v = Some (map2 (+) u v)"
  by (simp add: iadd1_def broadcast1_same)

lemma idiv2_shape [simp]:
  "ncols (idiv2 type a c) = ncols a" "nrows (idiv2 type a c) = nrows a"
  by (simp_all add: idiv2_def nrows_def)

lemma outerproduct_shape [simp]:
  "ncols (outerproduct u v) = length v" "nrows (outerproduct u v) = length u"
  by (simp_all add: outerproduct_def nrows_def)

lemma asarray_shape [simp]:
  "ncols (asarray m) = ncols m" "nrows (asarray m) = nrows m"
  "wf_matrix (asarray m) = wf_matrix m"
  by (simp_all add: asarray_def nrows_def wf_matrix_def list_all_iff)

lemma asarray_entry:
  "i < nrows m \<Longrightarrow> j < length (rows m ! i) \<Longrightarrow> rows (asarray m) ! i ! j = Fin (rows m ! i ! j)"
  by (simp add: asarray_def nrows_def)


section \<open>Finalizing the delayed accumulator\<close>

lemma lagged_covariance_computed:
  assumes "wf_matrix c" "nrows c = length a" "ncols c = length b"
  shows "\<exists>m. isub2 c (idiv2 ty (outerproduct a b) n) = Some m
           \<and> idiv2 ty m (n - 1) = lagged_covariance ty c a b n"
proof -
  let ?m1 = "idiv2 ty (outerproduct a b) n"
  let ?m = "\<lparr>ncols = ncols c, rows = map2 (map2 (-)) (rows c) (rows ?m1)\<rparr>"
  have 1: "isub2 c ?m1 = Some ?m"
    using assms(2,3) by (intro isub2_same) simp_all
  have len: "length (rows c ! i) = length b" if "i < length a" for i
    using wf_matrix_nth [OF assms(1), of i] that assms(2,3) by simp
  have 2: "idiv2 ty ?m (n - 1) = lagged_covariance ty c a b n"
    using assms(2,3)
    by (intro matrix_eqI)
       (simp_all add: lagged_covariance_def idiv2_def outerproduct_def nrows_def len)
  from 1 2 show ?thesis by blast
qed

lemma lagged_covariance_shape [simp]:
  "ncols (lagged_covariance ty c a b n) = ncols c"
  "nrows (lagged_covariance ty c a b n) = nrows c"
  "wf_matrix (lagged_covariance ty c a b n)"
  by (simp_all add: lagged_covariance_def nrows_def wf_matrix_def list_all_iff)

lemma transformed_computed:
  assumes "wf_matrix A" "wf_matrix m" "ncols A = ncols m" "ncols A = nrows m"
  shows "\<exists>m1. mult m (tr (asarray A)) = Some m1 \<and> mult (asarray A) m1 = Some (transformed A m)"
proof -
  let ?A = "asarray A"
  obtain m1 where m1: "mult m (tr ?A) = Some m1" "ncols m1 = nrows A" "nrows m1 = nrows m"
    "wf_matrix m1"
    using mult_Some [of m "tr ?A"] assms(3) by auto
  obtain m2 where m2: "mult ?A m1 = Some m2" "ncols m2 = nrows A" "nrows m2 = nrows A"
    "wf_matrix m2"
    using mult_Some [of ?A m1] assms(4) m1 by auto
  have wA: "wf_matrix ?A" using assms(1) by simp
  have eA: "rows ?A ! p ! i = Fin (rows A ! p ! i)" if "p < nrows A" "i < ncols A" for p i
    using that wf_matrix_nth [OF assms(1) that(1)] by (simp add: asarray_entry)
  have e1: "rows m1 ! i ! q = (\<Sum>j<ncols m. rows m ! i ! j * Fin (rows A ! q ! j))"
    if "i < nrows m" "q < nrows A" for i q
  proof -
    have "rows m1 ! i ! q = (\<Sum>j<ncols m. rows m ! i ! j * rows (tr ?A) ! j ! q)"
      using mult_entry [OF m1(1) assms(2) that(1)] that(2) by simp
    also have "\<dots> = (\<Sum>j<ncols m. rows m ! i ! j * Fin (rows A ! q ! j))"
      using assms(3) that(2) by (intro sum.cong) (simp_all add: tr_entry eA)
    finally show ?thesis .
  qed
  have e2: "rows m2 ! p ! q =
      (\<Sum>i<nrows m. Fin (rows A ! p ! i) * (\<Sum>j<ncols m. rows m ! i ! j * Fin (rows A ! q ! j)))"
    if "p < nrows A" "q < nrows A" for p q
  proof -
    have "rows m2 ! p ! q = (\<Sum>i<ncols ?A. rows ?A ! p ! i * rows m1 ! i ! q)"
      using mult_entry [OF m2(1) wA, of p q] that m1(2) by simp
    also have "\<dots> = (\<Sum>i<nrows m. Fin (rows A ! p ! i) *
        (\<Sum>j<ncols m. rows m ! i ! j * Fin (rows A ! q ! j)))"
      using assms(4) that by (intro sum.cong) (simp_all add: e1 eA)
    finally show ?thesis .
  qed
  have "m2 = transformed A m"
  proof (rule matrix_eqI)
    show "ncols m2 = ncols (transformed A m)" "nrows m2 = nrows (transformed A m)"
      using m2 by (simp_all add: transformed_def nrows_def)
    show "length (rows m2 ! i) = length (rows (transformed A m) ! i)" if "i < nrows m2" for i
      using wf_matrix_nth [OF m2(4) that] that m2
      by (simp add: transformed_def nrows_def)
    show "rows m2 ! i ! j = rows (transformed A m) ! i ! j"
      if "i < nrows m2" "j < length (rows m2 ! i)" for i j
    proof -
      have j: "j < nrows A" using wf_matrix_nth [OF m2(4) that(1)] that(2) m2 by simp
      have i: "i < nrows A" using that(1) m2 by simp
      show ?thesis
        using i j e2 [OF i j]
        by (simp add: transformed_def interv_sum_list_conv_sum_set_nat atLeast0LessThan
            nrows_def)
    qed
  qed
  with m1 m2 show ?thesis by simp
qed

lemma fix_d_returns:
  assumes alloc: "cov_mtx_d s = Some c" "avg_d s = Some a" "avg_dt s = Some b"
    and shape: "wf_matrix c" "nrows c = length a" "ncols c = length b"
    and guard: "check_roundoff (scast (tlen_d s) (typecode_d s)) (typecode_d s) = Inr ()"
    and A: "case A of None \<Rightarrow> True
            | Some A' \<Rightarrow> wf_matrix A' \<and> ncols A' = ncols c \<and> ncols A' = nrows c"
  shows "DelayCovarianceMatrix_fix A s =
      (Inr (case A of
              None \<Rightarrow> lagged_covariance (typecode_d s) c a b (of_int (tlen_d s))
            | Some A' \<Rightarrow>
                transformed A' (lagged_covariance (typecode_d s) c a b (of_int (tlen_d s))),
            idiv1 (typecode_d s) a (of_int (tlen_d s)),
            idiv1 (typecode_d s) b (of_int (tlen_d s)),
            of_int (tlen_d s)),
       s\<lparr>cov_mtx_d := None, avg_d := None, avg_dt := None, tlen_d := 0\<rparr>)"
proof -
  let ?n = "of_int (tlen_d s) :: rat"
  let ?ty = "typecode_d s"
  let ?L = "lagged_covariance ?ty c a b ?n"
  obtain m where m: "isub2 c (idiv2 ?ty (outerproduct a b) ?n) = Some m"
    "idiv2 ?ty m (?n - 1) = ?L"
    using lagged_covariance_computed [OF shape] by blast
  show ?thesis
  proof (cases A)
    case None
    then show ?thesis
      unfolding DelayCovarianceMatrix_fix_def
      using guard alloc m by (simp add: Let_def scast_def)
  next
    case (Some A')
    then have "wf_matrix A'" "ncols A' = ncols ?L" "ncols A' = nrows ?L"
      using A by simp_all
    then obtain m3 where "mult ?L (tr (asarray A')) = Some m3"
      "mult (asarray A') m3 = Some (transformed A' ?L)"
      using transformed_computed [of A' ?L] by auto
    then show ?thesis
      unfolding DelayCovarianceMatrix_fix_def
      using Some guard alloc m by (simp add: Let_def scast_def)
  qed
qed






section \<open>The delayed accumulator on one batch\<close>

lemma fix_d_scenario:
  "DelayCovarianceMatrix_fix None
      \<lparr>dt = 1, typecode_d = Some ''d'',
       cov_mtx_d = Some \<lparr>ncols = 2, rows = [[18, 22], [26, 32]]\<rparr>,
       avg_d = Some [4, 6], avg_dt = Some [8, 10], tlen_d = 2, input_dim_d = Some 2\<rparr> =
     (Inr (\<lparr>ncols = 2, rows = [[2, 2], [2, 2]]\<rparr>, [2, 3], [4, 5], 2),
      \<lparr>dt = 1, typecode_d = Some ''d'', cov_mtx_d = None, avg_d = None, avg_dt = None,
       tlen_d = 0, input_dim_d = Some 2\<rparr>)"
  by code_simp

lemma fix_d_scenario_A:
  "DelayCovarianceMatrix_fix (Some \<lparr>ncols = 2, rows = [[1, 1]]\<rparr>)
      \<lparr>dt = 1, typecode_d = Some ''d'',
       cov_mtx_d = Some \<lparr>ncols = 2, rows = [[18, 22], [26, 32]]\<rparr>,
       avg_d = Some [4, 6], avg_dt = Some [8, 10], tlen_d = 2, input_dim_d = Some 2\<rparr> =
     (Inr (\<lparr>ncols = 1, rows = [[8]]\<rparr>, [2, 3], [4, 5], 2),
      \<lparr>dt = 1, typecode_d = Some ''d'', cov_mtx_d = None, avg_d = None, avg_dt = None,
       tlen_d = 0, input_dim_d = Some 2\<rparr>)"
  by code_simp

lemma update_d_scenario:
  "DelayCovarianceMatrix_update
       \<lparr>x_typecode = ''d'', x_array = \<lparr>ncols = 2, rows = [[1, 2], [3, 4], [5, 6]]\<rparr>\<rparr>
       (DelayCovarianceMatrix_init 1 None) =
     (Inr (), \<lparr>dt = 1, typecode_d = Some ''d'',
        cov_mtx_d = Some \<lparr>ncols = 2, rows = [[18, 22], [26, 32]]\<rparr>,
        avg_d = Some [4, 6], avg_dt = Some [8, 10], tlen_d = 2, input_dim_d = Some 2\<rparr>)"
  by code_simp

text \<open>
  Claim C10. On a delayed accumulator with allocated running sums and a count of at least
  2, \<^verbatim>\<open>fix\<close> with a transform \<open>A\<close> (of as many columns as the data has dimensions) and
  \<^verbatim>\<open>fix\<close> without one end alike but for the covariance: the same two means and the same
  count are returned, or the same error is raised, and the accumulator is left in the
  same state. Both return whenever the precision guard lets the count pass.
\<close>

theorem delay_fix_transform_frame:
  assumes "cov_mtx_d s = Some c" "avg_d s = Some a" "avg_dt s = Some b"
    and "wf_matrix c" "nrows c = length a" "ncols c = length b"
    and "2 \<le> tlen_d s"
    and "wf_matrix A" "ncols A = ncols c" "ncols A = nrows c"
  shows "map_sum id (\<lambda>(cov, mean_lead, mean_lag, n). (mean_lead, mean_lag, n))
             (fst (DelayCovarianceMatrix_fix (Some A) s)) =
         map_sum id (\<lambda>(cov, mean_lead, mean_lag, n). (mean_lead, mean_lag, n))
             (fst (DelayCovarianceMatrix_fix None s))
       \<and> snd (DelayCovarianceMatrix_fix (Some A) s) = snd (DelayCovarianceMatrix_fix None s)
       \<and> (check_roundoff (of_int (tlen_d s)) (typecode_d s) = Inr () \<longrightarrow>
            (\<exists>cov cov' mean_lead mean_lag n.
               fst (DelayCovarianceMatrix_fix None s) = Inr (cov, mean_lead, mean_lag, n)
             \<and> fst (DelayCovarianceMatrix_fix (Some A) s) = Inr (cov', mean_lead, mean_lag, n)))"
proof (cases "check_roundoff (scast (tlen_d s) (typecode_d s)) (typecode_d s)")
  case (Inl e)
  then show ?thesis
    by (simp add: fix_d_guard_raises scast_def)
next
  case (Inr u)
  then have g: "check_roundoff (scast (tlen_d s) (typecode_d s)) (typecode_d s) = Inr ()"
    by simp
  show ?thesis
    using fix_d_returns [OF assms(1-6) g, of None]
      fix_d_returns [OF assms(1-6) g, of "Some A"] assms(8-10)
    by simp
qed

theorem delay_fix_transform_frame_witness:
  "fst (DelayCovarianceMatrix_fix (Some \<lparr>ncols = 2, rows = [[1, 1]]\<rparr>)
      \<lparr>dt = 1, typecode_d = Some ''d'',
       cov_mtx_d = Some \<lparr>ncols = 2, rows = [[18, 22], [26, 32]]\<rparr>,
       avg_d = Some [4, 6], avg_dt = Some [8, 10], tlen_d = 2, input_dim_d = Some 2\<rparr>) =
     Inr (\<lparr>ncols = 1, rows = [[8]]\<rparr>, [2, 3], [4, 5], 2)
   \<and> fst (DelayCovarianceMatrix_fix None
      \<lparr>dt = 1, typecode_d = Some ''d'',
       cov_mtx_d = Some \<lparr>ncols = 2, rows = [[18, 22], [26, 32]]\<rparr>,
       avg_d = Some [4, 6], avg_dt = Some [8, 10], tlen_d = 2, input_dim_d = Some 2\<rparr>) =
     Inr (\<lparr>ncols = 2, rows = [[2, 2], [2, 2]]\<rparr>, [2, 3], [4, 5], 2)"
proof -
  let ?s = "\<lparr>dt = 1, typecode_d = Some ''d'',
            cov_mtx_d = Some \<lparr>ncols = 2, rows = [[18, 22], [26, 32]]\<rparr>,
            avg_d = Some [4, 6], avg_dt = Some [8, 10], tlen_d = 2, input_dim_d = Some 2\<rparr>"
  let ?c = "\<lparr>ncols = 2, rows = [[18, 22], [26, 32]]\<rparr> :: number matrix"
  let ?A = "\<lparr>ncols = 2, rows = [[1, 1]]\<rparr> :: rat matrix"
  have h: "cov_mtx_d ?s = Some ?c" "avg_d ?s = Some [4, 6]" "avg_dt ?s = Some [8, 10]"
    "wf_matrix ?c" "nrows ?c = length [4 :: number, 6]" "ncols ?c = length [8 :: number, 10]"
    "2 \<le> tlen_d ?s"
    "wf_matrix ?A" "ncols ?A = ncols ?c" "ncols ?A = nrows ?c"
    by (simp_all add: wf_matrix_def nrows_def)
  have g: "check_roundoff (of_int (tlen_d ?s)) (typecode_d ?s) = Inr ()"
    using check_roundoff_small [of 2 "Some ''d''"] by (simp add: scast_def)
  obtain cov cov' mean_lead mean_lag n where
    r: "fst (DelayCovarianceMatrix_fix None ?s) = Inr (cov, mean_lead, mean_lag, n)"
       "fst (DelayCovarianceMatrix_fix (Some ?A) ?s) = Inr (cov', mean_lead, mean_lag, n)"
    using delay_fix_transform_frame [OF h, THEN conjunct2, THEN conjunct2, rule_format, OF g]
    by blast
  have "cov' = \<lparr>ncols = 1, rows = [[8]]\<rparr>" "mean_lead = [2, 3]" "mean_lag = [4, 5]" "n = 2"
    using r(2) unfolding fix_d_scenario_A by simp_all
  moreover have "cov = \<lparr>ncols = 2, rows = [[2, 2], [2, 2]]\<rparr>"
    using r(1) unfolding fix_d_scenario by simp
  ultimately show ?thesis
    using r by simp
qed

section \<open>Updating the plain accumulator\<close>

lemma gram_eq: "mult (tr x) x = Some (gram x)"
  by (simp add: mult_def tr_def nrows_def o_def gram_def)

lemma zip_map_same: "zip (map f xs) (map g xs) = map (\<lambda>x. (f x, g x)) xs"
  by (induction xs) simp_all

lemma map2_map_same: "map2 h (map f xs) (map g xs) = map (\<lambda>x. h (f x) (g x)) xs"
  by (simp add: zip_map_same)

lemma map2_assoc:
  assumes "\<And>x y z. f (f x y) z = f x (f y z)"
  shows "map2 f (map2 f xs ys) zs = map2 f xs (map2 f ys zs)"
proof (induction xs arbitrary: ys zs)
  case Nil
  then show ?case by simp
next
  case (Cons x xs)
  then show ?case
    by (cases ys; cases zs) (simp_all add: assms)
qed

lemma map2_add_assoc:
  "map2 (+) (map2 (+) u v) w = map2 (+) u (map2 (+) v (w :: number list))"
  by (rule map2_assoc) (simp add: add.assoc)

lemma rows_add_assoc:
  "map2 (map2 (+)) (map2 (map2 (+)) a b) c =
     map2 (map2 (+)) a (map2 (map2 (+)) b (c :: number list list))"
  by (rule map2_assoc) (rule map2_add_assoc)

lemma gram_shape [simp]:
  "ncols (gram x) = ncols x" "nrows (gram x) = ncols x" "wf_matrix (gram x)"
  by (simp_all add: gram_def nrows_def wf_matrix_def list_all_iff)

lemma length_rows_gram [simp]: "length (rows (gram x)) = ncols x"
  by (simp add: gram_def)

lemma length_sum0 [simp]: "length (sum0 x) = ncols x"
  by (simp add: sum0_def)

lemma update_allocated:
  assumes "cov_mtx s = Some c"
  shows "CovarianceMatrix_update x s =
     (case iadd2 c (gram (refcast x (typecode s))) of
        None \<Rightarrow> (Inl ShapeError, s)
      | Some c' \<Rightarrow>
          (case avg s of
             None \<Rightarrow> (Inl TypeError, s\<lparr>cov_mtx := Some c'\<rparr>)
           | Some a \<Rightarrow>
               (case iadd1 a (sum0 (refcast x (typecode s))) of
                  None \<Rightarrow> (Inl ShapeError, s\<lparr>cov_mtx := Some c'\<rparr>)
                | Some a' \<Rightarrow>
                    (Inr (), s\<lparr>cov_mtx := Some c', avg := Some a',
                               tlen := tlen s + int (nrows (x_array x))\<rparr>))))"
  using assms
  by (simp add: CovarianceMatrix_update_def Let_def gram_eq split: option.splits)

lemma update_unallocated:
  assumes "cov_mtx s = None"
  shows "CovarianceMatrix_update x s =
           CovarianceMatrix_update x (CovarianceMatrix_init_internals x s)"
    and "cov_mtx (CovarianceMatrix_init_internals x s) = Some (zeros2 (ncols (x_array x)))"
    and "avg (CovarianceMatrix_init_internals x s) = Some (zeros1 (ncols (x_array x)))"
    and "tlen (CovarianceMatrix_init_internals x s) = tlen s"
  using assms
  by (simp_all add: CovarianceMatrix_update_def CovarianceMatrix_init_internals_def Let_def)

lemma gram_append:
  assumes "ncols x = ncols y"
  shows "gram \<lparr>ncols = ncols x, rows = rows x @ rows y\<rparr> =
           \<lparr>ncols = ncols x, rows = map2 (map2 (+)) (rows (gram x)) (rows (gram y))\<rparr>"
proof -
  have c: "column \<lparr>ncols = k, rows = rows x @ rows y\<rparr> j = column x j @ column y j" for j k
    by (simp add: column_def)
  have d: "dot (u @ u') (v @ v') = dot u v + dot u' v'" if "length u = length v" for u u' v v'
    using that by (simp add: dot_def)
  have l: "length (column x i) = length (column x j)" for i j
    by (simp add: column_def)
  show ?thesis
    using assms
    by (simp add: gram_def c d [OF l] map2_map_same)
qed

lemma sum0_append:
  assumes "ncols x = ncols y"
  shows "sum0 \<lparr>ncols = ncols x, rows = rows x @ rows y\<rparr> = map2 (+) (sum0 x) (sum0 y)"
  using assms by (simp add: sum0_def column_def map2_map_same)

lemma refcast_append:
  "refcast (append_batch x y) ty =
     \<lparr>ncols = ncols (refcast x ty), rows = rows (refcast x ty) @ rows (refcast y ty)\<rparr>"
  by (simp add: refcast_def append_batch_def)


section \<open>Stretched operands\<close>

lemma stretch_singleton: "stretch n [x] = replicate n x"
  by (induction n) (simp_all add: stretch_def)

lemma stretch_Nil: "stretch n [] = []"
  by (induction n) (simp_all add: stretch_def)

lemma stretch_cases: "stretch n xs = (case xs of [] \<Rightarrow> [] | x # _ \<Rightarrow> replicate n x)"
proof (cases xs)
  case Nil
  then show ?thesis by (simp add: stretch_Nil)
next
  case (Cons x ys)
  have "stretch n (x # ys) = stretch n [x]"
    by (simp add: stretch_def)
  then show ?thesis using Cons by (simp add: stretch_singleton)
qed

lemma map2_replicate: "map2 f (replicate n x) (replicate n y) = replicate n (f x y)"
  by (induction n) simp_all

lemma stretch_map2: "stretch n (map2 f xs ys) = map2 f (stretch n xs) (stretch n ys)"
  by (cases xs; cases ys) (simp_all add: stretch_cases map2_replicate)

lemma length_stretch: "length xs = 1 \<Longrightarrow> length (stretch n xs) = n"
  by (cases xs) (simp_all add: stretch_cases)

lemma map_map2_distrib:
  assumes "\<And>a b. h (F a b) = F (h a) (h b)"
  shows "map h (map2 F xs ys) = map2 F (map h xs) (map h ys)"
proof (induction xs arbitrary: ys)
  case Nil
  then show ?case by simp
next
  case (Cons x xs)
  then show ?case by (cases ys) (simp_all add: assms)
qed

lemma broadcast2_length: "broadcast2 b n m = Some r \<Longrightarrow> length r = n"
  by (auto simp add: broadcast2_def nrows_def length_stretch split: if_splits)

lemma broadcast1_length: "broadcast1 v n = Some w \<Longrightarrow> length w = n"
  by (auto simp add: broadcast1_def length_stretch split: if_splits)

lemma stretch_rows_sum:
  "map (\<lambda>r. if k = m then r else stretch m r)
       (if c then map2 (map2 (+)) R1 R2 else stretch n (map2 (map2 (+)) R1 R2)) =
   map2 (map2 (+))
     (map (\<lambda>r. if k = m then r else stretch m r) (if c then R1 else stretch n R1))
     (map (\<lambda>r. if k = m then r else stretch m r) (if c then R2 else stretch n R2))"
proof -
  have A: "map (\<lambda>r. if k = m then r else stretch m r) (map2 (map2 (+)) X Y) =
      map2 (map2 (+)) (map (\<lambda>r. if k = m then r else stretch m r) X)
        (map (\<lambda>r. if k = m then r else stretch m r) Y)" for X Y :: "'a list list"
    by (rule map_map2_distrib) (simp add: stretch_map2)
  show ?thesis
    by (cases c) (simp_all only: if_True if_False stretch_map2 A)
qed

lemma broadcast2_sum:
  assumes "ncols g1 = ncols g2" "nrows g1 = nrows g2"
  shows "broadcast2 \<lparr>ncols = ncols g1, rows = map2 (map2 (+)) (rows g1) (rows g2)\<rparr> n m =
     (case broadcast2 g1 n m of
        None \<Rightarrow> None
      | Some r1 \<Rightarrow>
          (case broadcast2 g2 n m of
             None \<Rightarrow> None
           | Some r2 \<Rightarrow> Some (map2 (map2 (+)) r1 r2)))"
proof -
  let ?g = "\<lparr>ncols = ncols g1, rows = map2 (map2 (+)) (rows g1) (rows g2)\<rparr>"
  let ?h = "\<lambda>r :: 'a list. if ncols g1 = m then r else stretch m r"
  have sh: "nrows ?g = nrows g1" "ncols ?g = ncols g1" "nrows g2 = nrows g1"
    "ncols g2 = ncols g1"
    using assms by (simp_all add: nrows_def)
  show ?thesis
  proof (cases "(nrows g1 = n \<or> nrows g1 = 1) \<and> (ncols g1 = m \<or> ncols g1 = 1)")
    case False
    have "broadcast2 g1 n m = None"
      using False unfolding broadcast2_def by (simp only: if_False)
    moreover have "broadcast2 ?g n m = None"
      using False unfolding broadcast2_def sh by (simp only: if_False)
    ultimately show ?thesis
      by (simp only: option.case)
  next
    case True
    have b1: "broadcast2 g1 n m =
        Some (map ?h (if nrows g1 = n then rows g1 else stretch n (rows g1)))"
      using True by (simp add: broadcast2_def)
    have b2: "broadcast2 g2 n m =
        Some (map ?h (if nrows g1 = n then rows g2 else stretch n (rows g2)))"
      using True by (simp add: broadcast2_def sh)
    have b12: "broadcast2 ?g n m =
        Some (map ?h (if nrows g1 = n then map2 (map2 (+)) (rows g1) (rows g2)
                      else stretch n (map2 (map2 (+)) (rows g1) (rows g2))))"
      using True by (simp add: broadcast2_def sh)
    show ?thesis
      by (simp only: b1 b2 b12 option.case stretch_rows_sum)
  qed
qed

lemma iadd2_sum:
  assumes "ncols g1 = ncols g2" "nrows g1 = nrows g2"
  shows "iadd2 c \<lparr>ncols = ncols g1, rows = map2 (map2 (+)) (rows g1) (rows g2)\<rparr> =
     (case iadd2 c g1 of None \<Rightarrow> None | Some c1 \<Rightarrow> iadd2 c1 g2)"
proof (cases "broadcast2 g1 (nrows c) (ncols c)")
  case None
  then show ?thesis
    by (simp add: iadd2_def broadcast2_sum [OF assms])
next
  case (Some r1)
  then have l: "length r1 = nrows c" by (rule broadcast2_length)
  let ?c1 = "\<lparr>ncols = ncols c, rows = map2 (map2 (+)) (rows c) r1\<rparr>"
  have s: "nrows ?c1 = nrows c" "ncols ?c1 = ncols c"
    using l by (simp_all add: nrows_def)
  show ?thesis
    by (simp add: iadd2_def broadcast2_sum [OF assms] Some s rows_add_assoc
        split: option.splits)
qed

lemma broadcast1_sum:
  assumes "length v1 = length v2"
  shows "broadcast1 (map2 (+) v1 v2) n =
     (case broadcast1 v1 n of
        None \<Rightarrow> None
      | Some w1 \<Rightarrow>
          (case broadcast1 v2 n of None \<Rightarrow> None | Some w2 \<Rightarrow> Some (map2 (+) w1 w2)))"
  using assms by (simp add: broadcast1_def stretch_map2)

lemma iadd1_sum:
  assumes "length v1 = length v2"
  shows "iadd1 u (map2 (+) v1 (v2 :: number list)) =
     (case iadd1 u v1 of None \<Rightarrow> None | Some u1 \<Rightarrow> iadd1 u1 v2)"
proof (cases "broadcast1 v1 (length u)")
  case None
  then show ?thesis
    by (simp add: iadd1_def broadcast1_sum [OF assms])
next
  case (Some w1)
  then have l: "length w1 = length u" by (rule broadcast1_length)
  show ?thesis
    by (simp add: iadd1_def broadcast1_sum [OF assms] Some l map2_add_assoc
        split: option.splits)
qed

lemma iadd2_defined:
  "(\<exists>c1. iadd2 c g = Some c1) =
     ((nrows g = nrows c \<or> nrows g = 1) \<and> (ncols g = ncols c \<or> ncols g = 1))"
  by (simp add: iadd2_def broadcast2_def)

lemma iadd2_shape:
  assumes "iadd2 c g = Some c1"
  shows "nrows c1 = nrows c" "ncols c1 = ncols c"
proof -
  from assms obtain r where r: "broadcast2 g (nrows c) (ncols c) = Some r"
    and c1: "c1 = \<lparr>ncols = ncols c, rows = map2 (map2 (+)) (rows c) r\<rparr>"
    by (auto simp add: iadd2_def split: option.splits)
  from broadcast2_length [OF r] show "nrows c1 = nrows c" "ncols c1 = ncols c"
    by (simp_all add: c1 nrows_def)
qed

lemma iadd2_again:
  assumes "iadd2 c g1 = Some c1" "ncols g1 = ncols g2" "nrows g1 = nrows g2"
  shows "\<exists>c2. iadd2 c1 g2 = Some c2"
  using iadd2_defined [of c g1] iadd2_defined [of c1 g2] iadd2_shape [OF assms(1)] assms
  by simp

lemma iadd1_defined:
  "(\<exists>u1. iadd1 u v = Some u1) = (length v = length u \<or> length v = 1)"
  by (simp add: iadd1_def broadcast1_def)

lemma iadd1_length:
  assumes "iadd1 u v = Some u1"
  shows "length u1 = length u"
proof -
  from assms obtain w where w: "broadcast1 v (length u) = Some w" and u1: "u1 = map2 (+) u w"
    by (auto simp add: iadd1_def split: option.splits)
  from broadcast1_length [OF w] show ?thesis by (simp add: u1)
qed

lemma iadd1_again:
  assumes "iadd1 u v1 = Some u1" "length v1 = length v2"
  shows "\<exists>u2. iadd1 u1 v2 = Some u2"
  using iadd1_defined [of u v1] iadd1_defined [of u1 v2] iadd1_length [OF assms(1)] assms
  by simp

section \<open>Two batches and their concatenation\<close>

lemma feed_append_allocated:
  assumes w: "ncols (x_array x) = ncols (x_array y)"
    and c: "cov_mtx s = Some c"
  shows "(case CovarianceMatrix_feed [x, y] s of (Inl e, s') \<Rightarrow> Inl e | (Inr u, s') \<Rightarrow> Inr s') =
         (case CovarianceMatrix_feed [append_batch x y] s of
            (Inl e, s') \<Rightarrow> Inl e | (Inr u, s') \<Rightarrow> Inr s')"
proof -
  let ?ty = "typecode s"
  let ?x = "refcast x ?ty" and ?y = "refcast y ?ty" and ?xy = "refcast (append_batch x y) ?ty"
  have w': "ncols ?x = ncols ?y" using w by simp
  have xy: "?xy = \<lparr>ncols = ncols ?x, rows = rows ?x @ rows ?y\<rparr>"
    by (rule refcast_append)
  have g: "gram ?xy = \<lparr>ncols = ncols (gram ?x),
       rows = map2 (map2 (+)) (rows (gram ?x)) (rows (gram ?y))\<rparr>"
    unfolding xy using gram_append [OF w'] by simp
  have v: "sum0 ?xy = map2 (+) (sum0 ?x) (sum0 ?y)"
    unfolding xy using w' by (rule sum0_append)
  have n: "nrows (x_array (append_batch x y)) = nrows (x_array x) + nrows (x_array y)"
    by (simp add: append_batch_def nrows_def)
  have gs: "ncols (gram ?x) = ncols (gram ?y)" "nrows (gram ?x) = nrows (gram ?y)"
    using w by simp_all
  have vs: "length (sum0 ?x) = length (sum0 ?y)"
    using w by simp
  have G: "iadd2 c (gram ?xy) = (case iadd2 c (gram ?x) of None \<Rightarrow> None
      | Some c1 \<Rightarrow> iadd2 c1 (gram ?y))"
    unfolding g by (rule iadd2_sum [OF gs])
  have V: "iadd1 a (sum0 ?xy) = (case iadd1 a (sum0 ?x) of None \<Rightarrow> None
      | Some a1 \<Rightarrow> iadd1 a1 (sum0 ?y))" for a
    unfolding v by (rule iadd1_sum [OF vs])
  have u12: "CovarianceMatrix_update (append_batch x y) s =
     (case iadd2 c (gram ?xy) of
        None \<Rightarrow> (Inl ShapeError, s)
      | Some c' \<Rightarrow>
          (case avg s of
             None \<Rightarrow> (Inl TypeError, s\<lparr>cov_mtx := Some c'\<rparr>)
           | Some a \<Rightarrow>
               (case iadd1 a (sum0 ?xy) of
                  None \<Rightarrow> (Inl ShapeError, s\<lparr>cov_mtx := Some c'\<rparr>)
                | Some a' \<Rightarrow>
                    (Inr (), s\<lparr>cov_mtx := Some c', avg := Some a',
                               tlen := tlen s + int (nrows (x_array (append_batch x y)))\<rparr>))))"
    by (rule update_allocated [OF c])
  show ?thesis
  proof (cases "iadd2 c (gram ?x)")
    case None
    then show ?thesis
      by (simp add: update_allocated [OF c] u12 G)
  next
    case (Some c1)
    then obtain c2 where c2: "iadd2 c1 (gram ?y) = Some c2"
      using iadd2_again [OF Some gs] by blast
    have G': "iadd2 c (gram ?xy) = Some c2"
      by (simp add: G Some c2)
    show ?thesis
    proof (cases "avg s")
      case None
      then show ?thesis
        by (simp add: update_allocated [OF c] u12 G' Some)
    next
      case a: (Some a)
      show ?thesis
      proof (cases "iadd1 a (sum0 ?x)")
        case None
        then show ?thesis
          by (simp add: update_allocated [OF c] u12 G' Some a V)
      next
        case a1: (Some a1)
        then obtain a2 where a2: "iadd1 a1 (sum0 ?y) = Some a2"
          using iadd1_again [OF a1 vs] by blast
        have V': "iadd1 a (sum0 ?xy) = Some a2"
          by (simp add: V a1 a2)
        let ?s1 = "s\<lparr>cov_mtx := Some c1, avg := Some a1,
                      tlen := tlen s + int (nrows (x_array x))\<rparr>"
        have u1: "CovarianceMatrix_update x s = (Inr (), ?s1)"
          by (simp add: update_allocated [OF c] Some a a1)
        have u2: "CovarianceMatrix_update y ?s1 =
            (Inr (), ?s1\<lparr>cov_mtx := Some c2, avg := Some a2,
               tlen := tlen ?s1 + int (nrows (x_array y))\<rparr>)"
          by (subst update_allocated [where c = c1]) (simp_all add: c2 a2)
        have u12': "CovarianceMatrix_update (append_batch x y) s =
            (Inr (), s\<lparr>cov_mtx := Some c2, avg := Some a2,
               tlen := tlen s + int (nrows (x_array (append_batch x y)))\<rparr>)"
          by (simp add: u12 G' a V')
        show ?thesis
          unfolding CovarianceMatrix_feed.simps u1 u12'
          by (simp add: u2 n)
      qed
    qed
  qed
qed

lemma init_internals_append:
  assumes "x_typecode x = x_typecode y"
  shows "CovarianceMatrix_init_internals (append_batch x y) s =
           CovarianceMatrix_init_internals x s"
  by (simp add: CovarianceMatrix_init_internals_def append_batch_def)

lemma feed_append:
  assumes w: "ncols (x_array x) = ncols (x_array y)"
    and t: "x_typecode x = x_typecode y"
  shows "(case CovarianceMatrix_feed [x, y] s of (Inl e, s') \<Rightarrow> Inl e | (Inr u, s') \<Rightarrow> Inr s') =
         (case CovarianceMatrix_feed [append_batch x y] s of
            (Inl e, s') \<Rightarrow> Inl e | (Inr u, s') \<Rightarrow> Inr s')"
proof (cases "cov_mtx s")
  case (Some c)
  then show ?thesis using w by (rule feed_append_allocated [rotated])
next
  case None
  let ?s = "CovarianceMatrix_init_internals x s"
  have 1: "CovarianceMatrix_feed [x, y] s = CovarianceMatrix_feed [x, y] ?s"
    using update_unallocated(1) [OF None, of x] by simp
  have 2: "CovarianceMatrix_feed [append_batch x y] s = CovarianceMatrix_feed [append_batch x y] ?s"
    using update_unallocated(1) [OF None, of "append_batch x y"]
    by (simp add: init_internals_append [OF t])
  show ?thesis
    unfolding 1 2
    using w update_unallocated(2) [OF None, of x] by (rule feed_append_allocated)
qed

text \<open>
  Claim C5. For two batches of one row width (and one typecode, as slices of one sample
  sequence have), \<^verbatim>\<open>update\<close> with the first, \<^verbatim>\<open>update\<close> with the second and \<^verbatim>\<open>fix\<close>
  end as \<^verbatim>\<open>update\<close> with the concatenated batch and \<^verbatim>\<open>fix\<close> do, from every state of
  the plain accumulator: the same covariance, mean and count are returned, leaving the
  same state, or the same error is raised.
\<close>

theorem update_twice_is_update_concatenated:
  assumes "ncols (x_array B1) = ncols (x_array B2)"
    and "x_typecode B1 = x_typecode B2"
  shows "fst (CovarianceMatrix_run [B1, B2] s) = fst (CovarianceMatrix_run [append_batch B1 B2] s)
       \<and> (\<forall>r. fst (CovarianceMatrix_run [B1, B2] s) = Inr r \<longrightarrow>
            CovarianceMatrix_run [B1, B2] s = CovarianceMatrix_run [append_batch B1 B2] s)"
proof -
  obtain r1 s1 where f1: "CovarianceMatrix_feed [B1, B2] s = (r1, s1)"
    by (cases "CovarianceMatrix_feed [B1, B2] s")
  obtain r2 s2 where f2: "CovarianceMatrix_feed [append_batch B1 B2] s = (r2, s2)"
    by (cases "CovarianceMatrix_feed [append_batch B1 B2] s")
  have "(case r1 of Inl e \<Rightarrow> Inl e | Inr u \<Rightarrow> Inr s1) =
        (case r2 of Inl e \<Rightarrow> Inl e | Inr u \<Rightarrow> Inr s2)"
    using feed_append [OF assms, of s] unfolding f1 f2 by simp
  then show ?thesis
    unfolding CovarianceMatrix_run_def f1 f2
    by (cases r1; cases r2) simp_all
qed

theorem update_twice_is_update_concatenated_witness:
  "CovarianceMatrix_run
       [\<lparr>x_typecode = ''d'', x_array = \<lparr>ncols = 2, rows = [[1, 2]]\<rparr>\<rparr>,
        \<lparr>x_typecode = ''d'', x_array = \<lparr>ncols = 2, rows = [[3, 4], [5, 6]]\<rparr>\<rparr>]
       (CovarianceMatrix_init None) =
     (Inr (\<lparr>ncols = 2, rows = [[4, 4], [4, 4]]\<rparr>, [3, 4], 3),
      \<lparr>typecode = Some ''d'', cov_mtx = None, avg = None, tlen = 0, input_dim = Some 2\<rparr>)
   \<and> CovarianceMatrix_run
       [\<lparr>x_typecode = ''d'', x_array = \<lparr>ncols = 2, rows = [[1, 2], [3, 4], [5, 6]]\<rparr>\<rparr>]
       (CovarianceMatrix_init None) =
     (Inr (\<lparr>ncols = 2, rows = [[4, 4], [4, 4]]\<rparr>, [3, 4], 3),
      \<lparr>typecode = Some ''d'', cov_mtx = None, avg = None, tlen = 0, input_dim = Some 2\<rparr>)"
proof -
  let ?B1 = "\<lparr>x_typecode = ''d'', x_array = \<lparr>ncols = 2, rows = [[1, 2]]\<rparr>\<rparr>"
  let ?B2 = "\<lparr>x_typecode = ''d'', x_array = \<lparr>ncols = 2, rows = [[3, 4], [5, 6]]\<rparr>\<rparr>"
  let ?B = "\<lparr>x_typecode = ''d'', x_array = \<lparr>ncols = 2, rows = [[1, 2], [3, 4], [5, 6]]\<rparr>\<rparr>"
  let ?r = "(Inr (\<lparr>ncols = 2, rows = [[4, 4], [4, 4]]\<rparr>, [3, 4], 3),
      \<lparr>typecode = Some ''d'', cov_mtx = None, avg = None, tlen = 0, input_dim = Some 2\<rparr>)"
  have a: "append_batch ?B1 ?B2 = ?B"
    by (simp add: append_batch_def)
  have whole: "CovarianceMatrix_run [?B] (CovarianceMatrix_init None) = ?r"
    unfolding CovarianceMatrix_run_def CovarianceMatrix_feed.simps update_scenario
    by (simp add: fix_scenario py_not_def)
  have h: "ncols (x_array ?B1) = ncols (x_array ?B2)" "x_typecode ?B1 = x_typecode ?B2"
    by simp_all
  have "CovarianceMatrix_run [?B1, ?B2] (CovarianceMatrix_init None) = ?r"
    using update_twice_is_update_concatenated [OF h, of "CovarianceMatrix_init None"]
    unfolding a whole by simp
  with whole show ?thesis by simp
qed

section \<open>The running sums stay allocated\<close>

lemma broadcast2_wf:
  assumes "wf_matrix g" "broadcast2 g n m = Some r"
  shows "\<forall>x\<in>set r. length x = m"
proof -
  have g: "\<forall>x\<in>set (rows g). length x = ncols g"
    using assms(1) by (simp add: wf_matrix_def list_all_iff)
  have st: "set (stretch n (rows g)) \<subseteq> set (rows g)"
    by (cases "rows g") (auto simp add: stretch_cases)
  let ?R = "if nrows g = n then rows g else stretch n (rows g)"
  have R: "\<forall>x\<in>set ?R. length x = ncols g"
    using g st by auto
  from assms(2) have c: "ncols g = m \<or> ncols g = 1"
    and r: "r = map (\<lambda>x. if ncols g = m then x else stretch m x) ?R"
    by (auto simp add: broadcast2_def split: if_splits)
  show ?thesis
    unfolding r using R c by (auto simp add: length_stretch)
qed

lemma wf_iadd2:
  assumes "wf_matrix c" "wf_matrix g" "iadd2 c g = Some c1"
  shows "wf_matrix c1"
proof -
  from assms(3) obtain r where r: "broadcast2 g (nrows c) (ncols c) = Some r"
    and c1: "c1 = \<lparr>ncols = ncols c, rows = map2 (map2 (+)) (rows c) r\<rparr>"
    by (auto simp add: iadd2_def split: option.splits)
  have "length (map2 (+) u v) = ncols c" if "(u, v) \<in> set (zip (rows c) r)" for u v
  proof -
    from that have "u \<in> set (rows c)" "v \<in> set r"
      by (auto dest: set_zip_leftD set_zip_rightD)
    then show ?thesis
      using assms(1) broadcast2_wf [OF assms(2) r] by (simp add: wf_matrix_def list_all_iff)
  qed
  then show ?thesis
    by (auto simp add: c1 wf_matrix_def list_all_iff)
qed

lemma allocated_iff:
  "allocated D s =
     (\<exists>c a. cov_mtx s = Some c \<and> avg s = Some a \<and> ncols c = D \<and> nrows c = D \<and>
        wf_matrix c \<and> length a = D)"
  by (auto simp add: allocated_def split: option.splits)

lemma update_keeps_allocated:
  assumes "allocated D s" "CovarianceMatrix_update x s = (Inr (), s1)"
  shows "allocated D s1 \<and> tlen s1 = tlen s + int (nrows (x_array x))
       \<and> typecode s1 = typecode s \<and> input_dim s1 = input_dim s"
proof -
  obtain c a where ca: "cov_mtx s = Some c" "avg s = Some a" "ncols c = D" "nrows c = D"
    "wf_matrix c" "length a = D"
    using assms(1) by (auto simp add: allocated_iff)
  from assms(2) obtain c1 a1 where c1: "iadd2 c (gram (refcast x (typecode s))) = Some c1"
    and a1: "iadd1 a (sum0 (refcast x (typecode s))) = Some a1"
    and s1: "s1 = s\<lparr>cov_mtx := Some c1, avg := Some a1,
                     tlen := tlen s + int (nrows (x_array x))\<rparr>"
    unfolding update_allocated [OF ca(1)] ca(2) by (auto split: option.splits)
  have "wf_matrix c1"
    using ca(5) _ c1 by (rule wf_iadd2) simp
  then show ?thesis
    using ca iadd2_shape [OF c1] iadd1_length [OF a1] by (simp add: s1 allocated_iff)
qed

lemma init_internals_allocated:
  "allocated (ncols (x_array x)) (CovarianceMatrix_init_internals x s)"
  by (simp add: allocated_iff CovarianceMatrix_init_internals_def Let_def zeros2_def zeros1_def
      nrows_def wf_matrix_def list_all_iff)

lemma feed_keeps_allocated:
  assumes "allocated D s" "CovarianceMatrix_feed xs s = (Inr (), s1)"
  shows "allocated D s1 \<and> tlen s1 = tlen s + (\<Sum>x\<leftarrow>xs. int (nrows (x_array x)))
       \<and> typecode s1 = typecode s \<and> input_dim s1 = input_dim s"
  using assms
proof (induction xs arbitrary: s)
  case Nil
  then show ?case by simp
next
  case (Cons x xs)
  obtain r s' where u: "CovarianceMatrix_update x s = (r, s')"
    by (cases "CovarianceMatrix_update x s")
  with Cons.prems(2) have r: "r = Inr ()" and f: "CovarianceMatrix_feed xs s' = (Inr (), s1)"
    by (cases r; simp)+
  from update_keeps_allocated [OF Cons.prems(1) u [unfolded r]]
  have k: "allocated D s'" "tlen s' = tlen s + int (nrows (x_array x))"
    "typecode s' = typecode s" "input_dim s' = input_dim s"
    by simp_all
  from Cons.IH [OF k(1) f] k show ?case by simp
qed

lemma feed_from_empty:
  assumes "cov_mtx s = None" "CovarianceMatrix_feed (x # xs) s = (Inr (), s1)"
  shows "allocated (ncols (x_array x)) s1
       \<and> tlen s1 = tlen s + (\<Sum>y\<leftarrow>x # xs. int (nrows (x_array y)))
       \<and> typecode s1 = typecode (CovarianceMatrix_init_internals x s)
       \<and> input_dim s1 = Some (ncols (x_array x))"
proof -
  let ?s = "CovarianceMatrix_init_internals x s"
  have "CovarianceMatrix_feed (x # xs) ?s = (Inr (), s1)"
    using assms(2) update_unallocated(1) [OF assms(1), of x] by simp
  from feed_keeps_allocated [OF init_internals_allocated this]
  show ?thesis
    using update_unallocated(4) [OF assms(1), of x]
    by (simp add: CovarianceMatrix_init_internals_def Let_def)
qed


section \<open>Finalizing the plain accumulator\<close>

lemma plain_covariance_computed:
  assumes "wf_matrix c" "nrows c = length a" "ncols c = length a"
  shows "isub2 (idiv2 ty c (n - 1)) (idiv2 ty (outerproduct a a) (n * (n - 1))) =
           Some (plain_covariance ty c a n)"
proof -
  let ?m1 = "idiv2 ty (outerproduct a a) (n * (n - 1))"
  let ?m2 = "idiv2 ty c (n - 1)"
  have len: "length (rows c ! i) = length a" if "i < length a" for i
    using wf_matrix_nth [OF assms(1), of i] that assms(2,3) by simp
  have "\<lparr>ncols = ncols ?m2, rows = map2 (map2 (-)) (rows ?m2) (rows ?m1)\<rparr>
      = plain_covariance ty c a n"
    using assms(2,3)
    by (intro matrix_eqI)
       (simp_all add: plain_covariance_def idiv2_def outerproduct_def nrows_def len)
  moreover have "isub2 ?m2 ?m1 =
      Some \<lparr>ncols = ncols ?m2, rows = map2 (map2 (-)) (rows ?m2) (rows ?m1)\<rparr>"
    using assms(2,3) by (intro isub2_same) simp_all
  ultimately show ?thesis by simp
qed

lemma fix_returns:
  assumes "allocated D s"
    and "check_roundoff (scast (tlen s) (typecode s)) (typecode s) = Inr ()"
  shows "CovarianceMatrix_fix s =
      (Inr (plain_covariance (typecode s) (the (cov_mtx s)) (the (avg s)) (of_int (tlen s)),
            idiv1 (typecode s) (the (avg s)) (of_int (tlen s)),
            of_int (tlen s)),
       s\<lparr>cov_mtx := None, avg := None, tlen := 0\<rparr>)"
proof -
  obtain c a where ca: "cov_mtx s = Some c" "avg s = Some a" "ncols c = D" "nrows c = D"
    "wf_matrix c" "length a = D"
    using assms(1) by (auto simp add: allocated_iff)
  have m: "isub2 (idiv2 (typecode s) c (of_int (tlen s) - 1))
        (idiv2 (typecode s) (outerproduct a a) (of_int (tlen s) * (of_int (tlen s) - 1))) =
      Some (plain_covariance (typecode s) c a (of_int (tlen s)))"
    using plain_covariance_computed [OF ca(5), of a] ca by simp
  show ?thesis
    unfolding CovarianceMatrix_fix_def
    using assms(2) ca(1,2) m by (simp add: Let_def scast_def)
qed

lemma fix_returns_count:
  "CovarianceMatrix_fix s = (Inr (c, m, n), s') \<Longrightarrow> n = of_int (tlen s)"
  by (auto simp add: CovarianceMatrix_fix_def Let_def scast_def split: sum.splits option.splits)

text \<open>
  Claim C9. Let a plain accumulator be empty, be fed batches with at least 2 rows in all,
  and then be finalized. The third component of every triple that \<^verbatim>\<open>fix\<close> returns is
  the integer number of rows of all the batches; and \<^verbatim>\<open>fix\<close> does return such a triple
  whenever the precision guard lets that number pass.
\<close>

theorem n_observations_is_row_count:
  assumes "empty_state s" "CovarianceMatrix_feed xs s = (Inr (), s1)"
    and "2 \<le> (\<Sum>x\<leftarrow>xs. int (nrows (x_array x)))"
  shows "(\<forall>c m n s2. CovarianceMatrix_fix s1 = (Inr (c, m, n), s2) \<longrightarrow>
            n = of_int (\<Sum>x\<leftarrow>xs. int (nrows (x_array x))))
       \<and> (check_roundoff (of_int (\<Sum>x\<leftarrow>xs. int (nrows (x_array x)))) (typecode s1) = Inr () \<longrightarrow>
            (\<exists>c m s2. CovarianceMatrix_fix s1 =
               (Inr (c, m, of_int (\<Sum>x\<leftarrow>xs. int (nrows (x_array x)))), s2)))"
proof -
  let ?N = "\<Sum>x\<leftarrow>xs. int (nrows (x_array x))"
  from assms(3) obtain y ys where xs: "xs = y # ys"
    by (cases xs) simp_all
  have e: "cov_mtx s = None" "tlen s = 0"
    using assms(1) by (simp_all add: empty_state_def)
  from feed_from_empty [OF e(1) assms(2) [unfolded xs]]
  have a: "allocated (ncols (x_array y)) s1" and t: "tlen s1 = ?N"
    using e(2) by (simp_all add: xs)
  show ?thesis
  proof (intro conjI allI impI)
    fix c m n s2 assume "CovarianceMatrix_fix s1 = (Inr (c, m, n), s2)"
    from fix_returns_count [OF this] show "n = of_int ?N" using t by simp
  next
    assume "check_roundoff (of_int ?N) (typecode s1) = Inr ()"
    then have "check_roundoff (scast (tlen s1) (typecode s1)) (typecode s1) = Inr ()"
      by (simp add: scast_def t)
    from fix_returns [OF a this]
    show "\<exists>c m s2. CovarianceMatrix_fix s1 = (Inr (c, m, of_int ?N), s2)"
      using t by simp
  qed
qed

theorem n_observations_is_row_count_witness:
  "\<exists>c m s2. CovarianceMatrix_fix
       \<lparr>typecode = Some ''d'', cov_mtx = Some \<lparr>ncols = 2, rows = [[35, 44], [44, 56]]\<rparr>,
        avg = Some [9, 12], tlen = 3, input_dim = Some 2\<rparr> = (Inr (c, m, 3), s2)"
proof -
  let ?B = "\<lparr>x_typecode = ''d'', x_array = \<lparr>ncols = 2, rows = [[1, 2], [3, 4], [5, 6]]\<rparr>\<rparr>"
  let ?s1 = "\<lparr>typecode = Some ''d'', cov_mtx = Some \<lparr>ncols = 2, rows = [[35, 44], [44, 56]]\<rparr>,
        avg = Some [9, 12], tlen = 3, input_dim = Some 2\<rparr>"
  have e: "empty_state (CovarianceMatrix_init None)"
    by (simp add: empty_state_def CovarianceMatrix_init_def)
  have f: "CovarianceMatrix_feed [?B] (CovarianceMatrix_init None) = (Inr (), ?s1)"
    by (simp add: update_scenario py_not_def)
  have n: "(\<Sum>x\<leftarrow>[?B]. int (nrows (x_array x))) = 3"
    by (simp add: nrows_def)
  have g: "check_roundoff (of_int (\<Sum>x\<leftarrow>[?B]. int (nrows (x_array x)))) (typecode ?s1) = Inr ()"
    unfolding n using check_roundoff_small [of 3 "Some ''d''"] by (simp add: scast_def)
  have "2 \<le> (\<Sum>x\<leftarrow>[?B]. int (nrows (x_array x)))"
    unfolding n by simp
  from n_observations_is_row_count [OF e f this, THEN conjunct2, rule_format, OF g]
  show ?thesis unfolding n by simp
qed

section \<open>Using an accumulator again\<close>

lemma fix_resets:
  "CovarianceMatrix_fix s = (Inr r, s') \<Longrightarrow> s' = s\<lparr>cov_mtx := None, avg := None, tlen := 0\<rparr>"
  by (auto simp add: CovarianceMatrix_fix_def Let_def split: sum.splits option.splits)

lemma fix_empty_raises:
  "avg s = None \<Longrightarrow> CovarianceMatrix_fix s = (Inr r, s') \<Longrightarrow> False"
  by (auto simp add: CovarianceMatrix_fix_def Let_def split: sum.splits option.splits)

lemma run_again:
  assumes "empty_state s" "CovarianceMatrix_run xs s = (Inr r, s')"
  shows "empty_state s' \<and> CovarianceMatrix_run xs s' = (Inr r, s')"
proof -
  have e: "cov_mtx s = None" "avg s = None" "tlen s = 0"
    using assms(1) by (simp_all add: empty_state_def)
  obtain u s1 where f: "CovarianceMatrix_feed xs s = (u, s1)"
    by (cases "CovarianceMatrix_feed xs s")
  with assms(2) have u: "u = Inr ()" and fx: "CovarianceMatrix_fix s1 = (Inr r, s')"
    by (cases u; simp add: CovarianceMatrix_run_def)+
  have "xs \<noteq> []"
  proof
    assume "xs = []"
    with f have "s1 = s" by simp
    with fx show False using fix_empty_raises [OF e(2)] by simp
  qed
  then obtain x ys where xs: "xs = x # ys"
    by (cases xs) simp_all
  let ?i = "CovarianceMatrix_init_internals x s"
  from feed_from_empty [OF e(1) f [unfolded u xs]]
  have k: "typecode s1 = typecode ?i" "input_dim s1 = Some (ncols (x_array x))"
    by simp_all
  have s': "s' = s1\<lparr>cov_mtx := None, avg := None, tlen := 0\<rparr>"
    using fx by (rule fix_resets)
  have em: "empty_state s'"
    by (simp add: s' empty_state_def)
  have i: "CovarianceMatrix_init_internals x s' = ?i"
    using e by (simp add: s' k CovarianceMatrix_init_internals_def Let_def py_not_def
        split: option.splits)
  have c': "cov_mtx s' = None"
    by (simp add: s')
  have "CovarianceMatrix_update x s' =
      CovarianceMatrix_update x (CovarianceMatrix_init_internals x s')"
    by (rule update_unallocated(1) [OF c'])
  also have "\<dots> = CovarianceMatrix_update x ?i"
    by (simp only: i)
  also have "\<dots> = CovarianceMatrix_update x s"
    by (rule update_unallocated(1) [OF e(1), symmetric])
  finally have "CovarianceMatrix_feed xs s' = CovarianceMatrix_feed xs s"
    by (simp add: xs)
  then have "CovarianceMatrix_run xs s' = CovarianceMatrix_run xs s"
    by (simp add: CovarianceMatrix_run_def)
  with em assms(2) show ?thesis by simp
qed

lemma update_d_unallocated:
  assumes "cov_mtx_d s = None"
  shows "DelayCovarianceMatrix_update x s =
           DelayCovarianceMatrix_update x (DelayCovarianceMatrix_init_internals x s)"
    and "cov_mtx_d (DelayCovarianceMatrix_init_internals x s) \<noteq> None"
  using assms
  by (simp_all add: DelayCovarianceMatrix_update_def DelayCovarianceMatrix_init_internals_def
      Let_def)

lemma update_d_keeps:
  assumes "cov_mtx_d s \<noteq> None" "DelayCovarianceMatrix_update x s = (Inr (), s1)"
  shows "cov_mtx_d s1 \<noteq> None \<and> typecode_d s1 = typecode_d s
       \<and> input_dim_d s1 = input_dim_d s \<and> dt s1 = dt s"
  using assms
  by (auto simp add: DelayCovarianceMatrix_update_def Let_def
      split: if_splits option.splits)

lemma feed_d_keeps:
  assumes "cov_mtx_d s \<noteq> None" "DelayCovarianceMatrix_feed xs s = (Inr (), s1)"
  shows "typecode_d s1 = typecode_d s \<and> input_dim_d s1 = input_dim_d s \<and> dt s1 = dt s"
  using assms
proof (induction xs arbitrary: s)
  case Nil
  then show ?case by simp
next
  case (Cons x xs)
  obtain r s' where u: "DelayCovarianceMatrix_update x s = (r, s')"
    by (cases "DelayCovarianceMatrix_update x s")
  with Cons.prems(2) have r: "r = Inr ()" and f: "DelayCovarianceMatrix_feed xs s' = (Inr (), s1)"
    by (cases r; simp)+
  from update_d_keeps [OF Cons.prems(1) u [unfolded r]]
  have k: "cov_mtx_d s' \<noteq> None" "typecode_d s' = typecode_d s"
    "input_dim_d s' = input_dim_d s" "dt s' = dt s"
    by simp_all
  from Cons.IH [OF k(1) f] k show ?case by simp
qed

lemma fix_d_resets:
  "DelayCovarianceMatrix_fix A s = (Inr r, s') \<Longrightarrow>
     s' = s\<lparr>cov_mtx_d := None, avg_d := None, avg_dt := None, tlen_d := 0\<rparr>"
  by (auto simp add: DelayCovarianceMatrix_fix_def Let_def split: sum.splits option.splits)

lemma fix_d_empty_raises:
  "avg_d s = None \<Longrightarrow> DelayCovarianceMatrix_fix A s = (Inr r, s') \<Longrightarrow> False"
  by (auto simp add: DelayCovarianceMatrix_fix_def Let_def split: sum.splits option.splits)

lemma run_d_again:
  assumes "empty_state_d s" "DelayCovarianceMatrix_run xs A s = (Inr r, s')"
  shows "empty_state_d s' \<and> DelayCovarianceMatrix_run xs A s' = (Inr r, s')"
proof -
  have e: "cov_mtx_d s = None" "avg_d s = None" "avg_dt s = None" "tlen_d s = 0"
    using assms(1) by (simp_all add: empty_state_d_def)
  obtain u s1 where f: "DelayCovarianceMatrix_feed xs s = (u, s1)"
    by (cases "DelayCovarianceMatrix_feed xs s")
  with assms(2) have u: "u = Inr ()" and fx: "DelayCovarianceMatrix_fix A s1 = (Inr r, s')"
    by (cases u; simp add: DelayCovarianceMatrix_run_def)+
  have "xs \<noteq> []"
  proof
    assume "xs = []"
    with f have "s1 = s" by simp
    with fx show False using fix_d_empty_raises [OF e(2)] by simp
  qed
  then obtain x ys where xs: "xs = x # ys"
    by (cases xs) simp_all
  let ?i = "DelayCovarianceMatrix_init_internals x s"
  have "DelayCovarianceMatrix_feed (x # ys) ?i = (Inr (), s1)"
    using f [unfolded u xs] update_d_unallocated(1) [OF e(1), of x] by simp
  from feed_d_keeps [OF update_d_unallocated(2) [OF e(1)] this]
  have k: "typecode_d s1 = typecode_d ?i" "input_dim_d s1 = Some (ncols (x_array x))"
    "dt s1 = dt s"
    by (simp_all add: DelayCovarianceMatrix_init_internals_def Let_def)
  have s': "s' = s1\<lparr>cov_mtx_d := None, avg_d := None, avg_dt := None, tlen_d := 0\<rparr>"
    using fx by (rule fix_d_resets)
  have em: "empty_state_d s'"
    by (simp add: s' empty_state_d_def)
  have i: "DelayCovarianceMatrix_init_internals x s' = ?i"
    using e by (simp add: s' k DelayCovarianceMatrix_init_internals_def Let_def py_not_def
        split: option.splits)
  have c': "cov_mtx_d s' = None"
    by (simp add: s')
  have "DelayCovarianceMatrix_update x s' =
      DelayCovarianceMatrix_update x (DelayCovarianceMatrix_init_internals x s')"
    by (rule update_d_unallocated(1) [OF c'])
  also have "\<dots> = DelayCovarianceMatrix_update x ?i"
    by (simp only: i)
  also have "\<dots> = DelayCovarianceMatrix_update x s"
    by (rule update_d_unallocated(1) [OF e(1), symmetric])
  finally have "DelayCovarianceMatrix_feed xs s' = DelayCovarianceMatrix_feed xs s"
    by (simp add: xs)
  then have "DelayCovarianceMatrix_run xs A s' = DelayCovarianceMatrix_run xs A s"
    by (simp add: DelayCovarianceMatrix_run_def)
  with em assms(2) show ?thesis by simp
qed

text \<open>
  Claim C8. Whenever \<^verbatim>\<open>fix\<close> returns, it leaves the accumulator empty: the running sums
  unset and the count 0. And when an empty accumulator (a new one, or one that was
  finalized) is fed batches and finalized with a result, feeding the accumulator it has
  become the same batches and finalizing returns the same result once more, and leaves the
  same state. Both hold of the plain and of the delayed accumulator (the latter with or
  without a transform).
\<close>

theorem fix_resets_and_accumulator_is_reusable:
  "(CovarianceMatrix_fix s = (Inr r, s') \<longrightarrow> empty_state s')
   \<and> (empty_state s0 \<and> CovarianceMatrix_run xs s0 = (Inr r0, s0') \<longrightarrow>
        empty_state s0' \<and> CovarianceMatrix_run xs s0' = (Inr r0, s0'))
   \<and> (DelayCovarianceMatrix_fix A d = (Inr q, d') \<longrightarrow> empty_state_d d')
   \<and> (empty_state_d d0 \<and> DelayCovarianceMatrix_run xs A d0 = (Inr q0, d0') \<longrightarrow>
        empty_state_d d0' \<and> DelayCovarianceMatrix_run xs A d0' = (Inr q0, d0'))"
proof (intro conjI impI)
  assume "CovarianceMatrix_fix s = (Inr r, s')"
  from fix_resets [OF this] show "empty_state s'"
    by (simp add: empty_state_def)
next
  assume "DelayCovarianceMatrix_fix A d = (Inr q, d')"
  from fix_d_resets [OF this] show "empty_state_d d'"
    by (simp add: empty_state_d_def)
next
  assume a: "empty_state s0 \<and> CovarianceMatrix_run xs s0 = (Inr r0, s0')"
  then show "empty_state s0'" "CovarianceMatrix_run xs s0' = (Inr r0, s0')"
    using run_again [of s0 xs r0 s0'] by simp_all
next
  assume a: "empty_state_d d0 \<and> DelayCovarianceMatrix_run xs A d0 = (Inr q0, d0')"
  then show "empty_state_d d0'" "DelayCovarianceMatrix_run xs A d0' = (Inr q0, d0')"
    using run_d_again [of d0 xs A q0 d0'] by simp_all
qed

theorem fix_resets_and_accumulator_is_reusable_witness:
  "empty_state \<lparr>typecode = Some ''d'', cov_mtx = None, avg = None, tlen = 0,
                input_dim = Some 2\<rparr>
   \<and> CovarianceMatrix_run
       [\<lparr>x_typecode = ''d'', x_array = \<lparr>ncols = 2, rows = [[1, 2], [3, 4], [5, 6]]\<rparr>\<rparr>]
       \<lparr>typecode = Some ''d'', cov_mtx = None, avg = None, tlen = 0, input_dim = Some 2\<rparr> =
     (Inr (\<lparr>ncols = 2, rows = [[4, 4], [4, 4]]\<rparr>, [3, 4], 3),
      \<lparr>typecode = Some ''d'', cov_mtx = None, avg = None, tlen = 0, input_dim = Some 2\<rparr>)
   \<and> empty_state_d \<lparr>dt = 1, typecode_d = Some ''d'', cov_mtx_d = None, avg_d = None,
                    avg_dt = None, tlen_d = 0, input_dim_d = Some 2\<rparr>
   \<and> DelayCovarianceMatrix_run
       [\<lparr>x_typecode = ''d'', x_array = \<lparr>ncols = 2, rows = [[1, 2], [3, 4], [5, 6]]\<rparr>\<rparr>]
       None
       \<lparr>dt = 1, typecode_d = Some ''d'', cov_mtx_d = None, avg_d = None, avg_dt = None,
        tlen_d = 0, input_dim_d = Some 2\<rparr> =
     (Inr (\<lparr>ncols = 2, rows = [[2, 2], [2, 2]]\<rparr>, [2, 3], [4, 5], 2),
      \<lparr>dt = 1, typecode_d = Some ''d'', cov_mtx_d = None, avg_d = None, avg_dt = None,
       tlen_d = 0, input_dim_d = Some 2\<rparr>)"
proof -
  let ?B = "\<lparr>x_typecode = ''d'', x_array = \<lparr>ncols = 2, rows = [[1, 2], [3, 4], [5, 6]]\<rparr>\<rparr>"
  let ?s1 = "\<lparr>typecode = Some ''d'', cov_mtx = Some \<lparr>ncols = 2, rows = [[35, 44], [44, 56]]\<rparr>,
        avg = Some [9, 12], tlen = 3, input_dim = Some 2\<rparr>"
  let ?s' = "\<lparr>typecode = Some ''d'', cov_mtx = None, avg = None, tlen = 0, input_dim = Some 2\<rparr>"
  let ?r = "(\<lparr>ncols = 2, rows = [[4, 4], [4, 4]]\<rparr>, [3 :: number, 4], 3 :: rat)"
  let ?d0 = "DelayCovarianceMatrix_init 1 None"
  let ?d1 = "\<lparr>dt = 1, typecode_d = Some ''d'',
       cov_mtx_d = Some \<lparr>ncols = 2, rows = [[18, 22], [26, 32]]\<rparr>,
       avg_d = Some [4, 6], avg_dt = Some [8, 10], tlen_d = 2, input_dim_d = Some 2\<rparr>"
  let ?d' = "\<lparr>dt = 1, typecode_d = Some ''d'', cov_mtx_d = None, avg_d = None, avg_dt = None,
        tlen_d = 0, input_dim_d = Some 2\<rparr>"
  let ?q = "(\<lparr>ncols = 2, rows = [[2, 2], [2, 2]]\<rparr>, [2 :: number, 3], [4 :: number, 5], 2 :: rat)"
  have p1: "CovarianceMatrix_fix ?s1 = (Inr ?r, ?s')"
    by (rule fix_scenario)
  have p2: "empty_state (CovarianceMatrix_init None) \<and>
      CovarianceMatrix_run [?B] (CovarianceMatrix_init None) = (Inr ?r, ?s')"
  proof
    show "empty_state (CovarianceMatrix_init None)"
      by (simp add: empty_state_def CovarianceMatrix_init_def)
    show "CovarianceMatrix_run [?B] (CovarianceMatrix_init None) = (Inr ?r, ?s')"
      unfolding CovarianceMatrix_run_def CovarianceMatrix_feed.simps update_scenario
      by (simp add: fix_scenario py_not_def)
  qed
  have p3: "DelayCovarianceMatrix_fix None ?d1 = (Inr ?q, ?d')"
    by (rule fix_d_scenario)
  have p4: "empty_state_d ?d0 \<and> DelayCovarianceMatrix_run [?B] None ?d0 = (Inr ?q, ?d')"
  proof
    show "empty_state_d ?d0"
      by (simp add: empty_state_d_def DelayCovarianceMatrix_init_def)
    show "DelayCovarianceMatrix_run [?B] None ?d0 = (Inr ?q, ?d')"
      unfolding DelayCovarianceMatrix_run_def DelayCovarianceMatrix_feed.simps update_d_scenario
      by (simp only: prod.case sum.case fix_d_scenario)
  qed
  show ?thesis
    using fix_resets_and_accumulator_is_reusable
      [of ?s1 ?r ?s' "CovarianceMatrix_init None" "[?B]" ?r ?s' None ?d1 ?q ?d' ?d0 ?q ?d']
    by (simp only: p1 p2 p3 p4 simp_thms)
qed

section \<open>Lag zero\<close>

lemma number_minus_zero [simp]: "x - (0 :: number) = x"
  by (cases x) (simp_all add: zero_number_def)















end
